theory Spec2Isabelle
  imports Main "HOL-Library.Char_ord" "HOL-Library.List_Lexorder" "HOL-Library.Multiset"
begin

section \<open>Go strings\<close>

text \<open>
  A Go string is a sequence of bytes, here a \<^typ>\<open>string\<close>; \<open><\<close> on Go strings is the
  bytewise lexicographic order, here the order of \<open>List_Lexorder\<close> over \<open>Char_ord\<close>.
  The functions of package \<open>strings\<close> that \<open>generate.go\<close> calls are modelled below. Every
  separator the source passes is a one-byte string, so it is a \<^typ>\<open>char\<close> here.
\<close>

text \<open>\<open>strings.Replace(s, old, new, -1)\<close> for a one-byte \<open>old\<close>.\<close>

definition strings_Replace :: "string \<Rightarrow> char \<Rightarrow> string \<Rightarrow> string" where
  "strings_Replace s old new = concat (map (\<lambda>c. if c = old then new else [c]) s)"

text \<open>\<open>strings.HasPrefix(s, prefix)\<close> for a one-byte \<open>prefix\<close>.\<close>

definition strings_HasPrefix :: "string \<Rightarrow> char \<Rightarrow> bool" where
  "strings_HasPrefix s c = (case s of [] \<Rightarrow> False | x # xs \<Rightarrow> x = c)"

text \<open>\<open>strings.Split(s, sep)\<close>: the pieces between the separators, never an empty slice.\<close>

fun strings_Split :: "string \<Rightarrow> char \<Rightarrow> string list" where
  "strings_Split [] sep = [[]]"
| "strings_Split (c # cs) sep =
     (if c = sep then [] # strings_Split cs sep
      else (c # hd (strings_Split cs sep)) # tl (strings_Split cs sep))"

text \<open>\<open>strings.LastIndex(s, sep)\<close>: the index of the last separator, or \<open>-1\<close>.\<close>

fun LastIndex_from :: "string \<Rightarrow> char \<Rightarrow> int \<Rightarrow> int \<Rightarrow> int" where
  "LastIndex_from [] c i found = found"
| "LastIndex_from (x # xs) c i found = LastIndex_from xs c (i + 1) (if x = c then i else found)"

definition strings_LastIndex :: "string \<Rightarrow> char \<Rightarrow> int" where
  "strings_LastIndex s c = LastIndex_from s c 0 (- 1)"

text \<open>
  \<open>strings.ToLower\<close> and \<open>strings.Title\<close>. On a string of ASCII bytes both work byte by
  byte: a letter changes case by its bit of value 32, and \<open>isSeparator\<close> tells where a
  word starts. On a string with a byte from 128 on both decode UTF-8 and map the runes by
  the Unicode tables of the Go library (\<open>strings.Map\<close> with \<open>unicode.ToLower\<close>, and with
  the closure of \<open>strings.Title\<close>): these tables are no part of \<open>generate.go\<close>, and what
  they give is taken from outside, as the two functions of a \<open>unicode\<close>.
\<close>

record unicode =
  MapToLower :: "string \<Rightarrow> string"
  MapTitle :: "string \<Rightarrow> string"

definition isASCII :: "string \<Rightarrow> bool" where
  "isASCII s = list_all (\<lambda>c. c < CHR 0x80) s"

definition toLowerChar :: "char \<Rightarrow> char" where
  "toLowerChar c = (if CHR ''A'' \<le> c \<and> c \<le> CHR ''Z''
     then (case c of Char b0 b1 b2 b3 b4 b5 b6 b7 \<Rightarrow> Char b0 b1 b2 b3 b4 True b6 b7) else c)"

definition toTitleChar :: "char \<Rightarrow> char" where
  "toTitleChar c = (if CHR ''a'' \<le> c \<and> c \<le> CHR ''z''
     then (case c of Char b0 b1 b2 b3 b4 b5 b6 b7 \<Rightarrow> Char b0 b1 b2 b3 b4 False b6 b7) else c)"

definition strings_ToLower :: "unicode \<Rightarrow> string \<Rightarrow> string" where
  "strings_ToLower u s = (if isASCII s then map toLowerChar s else MapToLower u s)"

text \<open>
  \<open>isSeparator\<close> of the Go library, for a rune up to U+00FF: beyond ASCII no letter or
  digit is a separator, and the spaces are U+0085 and U+00A0.
\<close>

definition isSeparator :: "char \<Rightarrow> bool" where
  "isSeparator r =
     (if r \<le> CHR 0x7F then
        (if CHR ''0'' \<le> r \<and> r \<le> CHR ''9'' then False
         else if CHR ''a'' \<le> r \<and> r \<le> CHR ''z'' then False
         else if CHR ''A'' \<le> r \<and> r \<le> CHR ''Z'' then False
         else if r = CHR ''_'' then False
         else True)
      else (r = CHR 0x85 \<or> r = CHR 0xA0))"

fun Title_from :: "char \<Rightarrow> string \<Rightarrow> string" where
  "Title_from prev [] = []"
| "Title_from prev (r # rs) = (if isSeparator prev then toTitleChar r else r) # Title_from r rs"

definition strings_Title :: "unicode \<Rightarrow> string \<Rightarrow> string" where
  "strings_Title u s = (if isASCII s then Title_from CHR '' '' s else MapTitle u s)"

section \<open>The OpenAPI description and the store\<close>

text \<open>
  The types of package \<open>framework\<close> are declared outside \<open>generate.go\<close>; the records below
  hold the fields that \<open>generate.go\<close> reads or writes. A \<open>*OASSchema\<close> is either nil
  (\<open>None\<close>) or the address of a schema object in the store, a list of objects indexed by
  address: the source writes \<open>DisplayAttrs\<close> through such pointers, and two holders of one
  address see the same object. A \<open>*DisplayAttributes\<close> is never written through, so it is
  an optional value. \<open>Items\<close>, the schema of the elements of an array, is a field of
  \<open>framework.OASSchema\<close> that \<open>generate.go\<close> never reads; it is here to tell an array of
  strings from another array. The elements of \<open>Parameters\<close> are struct values, as the slice type
  \<open>[]framework.OASParameter\<close> of \<open>templateFriendly\<close> shows. A Go map is the association
  list of its entries in the order one \<open>range\<close> over it visits them. The pointer to the
  path item and the media type objects of a content map are taken to be non-nil: the
  source dereferences them without a check.
\<close>

type_synonym ref = nat

record DisplayAttributes =
  Sensitive :: bool

record OASSchema =
  Type :: string
  SchemaDescription :: string
  Properties :: "(string \<times> ref option) list option"
  Items :: "ref option"
  DisplayAttrs :: "DisplayAttributes option"

record OASParameter =
  Name :: string
  Description :: string
  In :: string
  Schema :: "ref option"

record OASMediaTypeObject =
  MediaTypeSchema :: "ref option"

record OASRequestBody =
  Content :: "(string \<times> OASMediaTypeObject) list option"

record OASOperation =
  RequestBody :: "OASRequestBody option"

record OASPathItem =
  Parameters :: "OASParameter list"
  Get :: "OASOperation option"
  Post :: "OASOperation option"
  Delete :: "OASOperation option"

text \<open>The zero values \<open>framework.OASSchema{}\<close> and \<open>framework.DisplayAttributes{}\<close>.\<close>

definition zeroSchema :: OASSchema where
  "zeroSchema = \<lparr>Type = [], SchemaDescription = [], Properties = None, Items = None, DisplayAttrs = None\<rparr>"

definition zeroDisplayAttributes :: DisplayAttributes where
  "zeroDisplayAttributes = \<lparr>Sensitive = False\<rparr>"

text \<open>
  Errors. \<open>ErrUnsupported\<close> is the sentinel of the source; \<open>ErrExternal\<close> carries the text
  of an error of the operating system or of the template engine; the two panics are the
  run-time panics the source can reach, which unwind through every caller.
\<close>

datatype error = ErrUnsupported | ErrExternal string | PanicNilDereference | PanicSliceBounds

text \<open>
  A line handed to \<open>logger.Error\<close>: either \<open>fmt.Sprintf\<close> of a format and its arguments,
  kept unrendered, or the text of an error.
\<close>

datatype logmsg = LogSprintf string "string list" | LogError error

text \<open>
  Everything the generator can change: the schema objects, the path item its pointer
  argument refers to, the directories and files on disk, and the lines logged so far.
\<close>

record state =
  schemas :: "OASSchema list"
  pathItem :: OASPathItem
  dirs :: "string set"
  files :: "string \<rightharpoonup> string"
  logged :: "logmsg list"

section \<open>Parameter extraction\<close>

text \<open>\<open>if s.DisplayAttrs == nil { s.DisplayAttrs = &framework.DisplayAttributes{} }\<close> at address \<open>r\<close>.\<close>

definition populateDisplayAttrs :: "ref \<Rightarrow> OASSchema list \<Rightarrow> OASSchema list" where
  "populateDisplayAttrs r h =
     (if DisplayAttrs (h ! r) = None
      then h[r := (h ! r)\<lparr>DisplayAttrs := Some zeroDisplayAttributes\<rparr>] else h)"

text \<open>
  The body of the first loop of \<open>appendPostParamsToTopLevel\<close>. The loop variable \<open>param\<close>
  is a copy of the slice element. With a nil \<open>Schema\<close> the fresh schema object is assigned
  to the copy and populated there: no holder outlives the iteration, so neither the slice
  nor the store changes. With a schema at \<open>r\<close> the display attributes are written through
  the pointer, into the store.
\<close>

definition seenTopLevel ::
  "OASParameter \<Rightarrow> OASSchema list \<times> (string \<Rightarrow> bool) \<Rightarrow> OASSchema list \<times> (string \<Rightarrow> bool)" where
  "seenTopLevel param = (\<lambda>(h, unique).
     ((case Schema param of None \<Rightarrow> h | Some r \<Rightarrow> populateDisplayAttrs r h),
      unique(Name param := True)))"

text \<open>
  The body of the loop over the properties of one media type. A nil schema is replaced by
  a fresh object, allocated at the end of the store.
\<close>

definition addProperty ::
  "string \<times> ref option \<Rightarrow> OASSchema list \<times> OASParameter list \<times> (string \<Rightarrow> bool)
     \<Rightarrow> OASSchema list \<times> OASParameter list \<times> (string \<Rightarrow> bool)" where
  "addProperty = (\<lambda>(propertyName, schema) (h, params, unique).
     if unique propertyName then (h, params, unique)
     else
       let (r, h1) = (case schema of None \<Rightarrow> (length h, h @ [zeroSchema]) | Some r \<Rightarrow> (r, h));
           h2 = populateDisplayAttrs r h1
       in (h2,
           params @ [\<lparr>Name = propertyName, Description = SchemaDescription (h2 ! r),
                      In = ''post'', Schema = Some r\<rparr>],
           unique(propertyName := True)))"

definition addMediaType ::
  "string \<times> OASMediaTypeObject \<Rightarrow> OASSchema list \<times> OASParameter list \<times> (string \<Rightarrow> bool)
     \<Rightarrow> OASSchema list \<times> OASParameter list \<times> (string \<Rightarrow> bool)" where
  "addMediaType = (\<lambda>(mediaType, mediaTypeObject) (h, params, unique).
     case MediaTypeSchema mediaTypeObject of
       None \<Rightarrow> (h, params, unique)
     | Some r \<Rightarrow>
         (case Properties (h ! r) of
            None \<Rightarrow> (h, params, unique)
          | Some properties \<Rightarrow> fold addProperty properties (h, params, unique)))"

definition appendPostParamsToTopLevel :: "state \<Rightarrow> state" where
  "appendPostParamsToTopLevel s =
     (case Post (pathItem s) of
        None \<Rightarrow> s
      | Some post \<Rightarrow>
          (case RequestBody post of
             None \<Rightarrow> s
           | Some body \<Rightarrow>
               (case Content body of
                  None \<Rightarrow> s
                | Some content \<Rightarrow>
                    let (h1, unique) =
                          fold seenTopLevel (Parameters (pathItem s)) (schemas s, \<lambda>_. False);
                        (h2, params, unique2) =
                          fold addMediaType content (h1, Parameters (pathItem s), unique)
                    in s\<lparr>schemas := h2, pathItem := (pathItem s)\<lparr>Parameters := params\<rparr>\<rparr>)))"

section \<open>The template context\<close>

definition stripCurlyBraces :: "string \<Rightarrow> string" where
  "stripCurlyBraces path =
     (let path = strings_Replace path CHR ''{'' [];
          path = strings_Replace path CHR ''}'' []
      in path)"

definition replaceSlashesWithDashes :: "string \<Rightarrow> string" where
  "replaceSlashesWithDashes s =
     (let s = (if strings_HasPrefix s CHR ''/'' then drop 1 s else s)
      in strings_Replace s CHR ''/'' ''-'')"

definition supportedParamTypes :: "string list" where
  "supportedParamTypes = [''array'', ''boolean'', ''integer'', ''string'']"

text \<open>\<open>strutil.StrListContains(haystack, needle)\<close>: some element equals the needle.\<close>

definition StrListContains :: "string list \<Rightarrow> string \<Rightarrow> bool" where
  "StrListContains haystack needle = (needle \<in> set haystack)"

text \<open>
  \<open>sort.Slice\<close> with the source's \<open>less\<close>, which compares the names. The library promises a
  sorted rearrangement and no stability; insertion sort is one such rearrangement, and
  the only one when the names are distinct (\<open>sort_Slice_unique\<close> below).
\<close>

definition sort_Slice :: "OASParameter list \<Rightarrow> OASParameter list" where
  "sort_Slice params = sort_key Name params"

record templateFriendly =
  Endpoint :: string
  DirName :: string
  ExportedFuncPrefix :: string
  PrivateFuncPrefix :: string
  TemplateParameters :: "OASParameter list"
  SupportsRead :: bool
  SupportsWrite :: bool
  SupportsDelete :: bool

definition unsupportedFormat :: string where
  "unsupportedFormat =
     ''can'' @ [CHR 0x27] @ ''t generate %q because parameter type of %q for %s is unsupported''
       @ [CHR 0x27]"

text \<open>
  The validation loop of \<open>toTemplateFriendly\<close>: \<open>None\<close> when the loop runs to its end,
  otherwise how it is left and what it logs. \<open>param.Schema.Type\<close> on a nil schema is a
  nil pointer dereference.
\<close>

fun validateParams ::
  "string \<Rightarrow> OASSchema list \<Rightarrow> OASParameter list \<Rightarrow> (error \<times> logmsg list) option" where
  "validateParams path h [] = None"
| "validateParams path h (param # rest) =
     (case Schema param of
        None \<Rightarrow> Some (PanicNilDereference, [])
      | Some r \<Rightarrow>
          if \<not> StrListContains supportedParamTypes (Type (h ! r))
          then Some (ErrUnsupported, [LogSprintf unsupportedFormat [path, Type (h ! r), Name param]])
          else validateParams path h rest)"

text \<open>The function prefix computed at the head of \<open>toTemplateFriendly\<close>.\<close>

definition pathPrefix :: "string \<Rightarrow> string" where
  "pathPrefix path =
     (let pathFields = strings_Split path CHR ''/'';
          prefix = pathFields ! 0;
          prefix = (if length pathFields > 1 then pathFields ! (length pathFields - 1) else prefix);
          prefix = stripCurlyBraces prefix;
          prefix = strings_Replace prefix CHR ''_'' []
      in prefix)"

definition toTemplateFriendly ::
  "unicode \<Rightarrow> string \<Rightarrow> string \<Rightarrow> state \<Rightarrow> (error + templateFriendly) \<times> state" where
  "toTemplateFriendly u path parentDir s =
     (let prefix = pathPrefix path;
          s1 = appendPostParamsToTopLevel s
      in (case validateParams path (schemas s1) (Parameters (pathItem s1)) of
            Some (e, msgs) \<Rightarrow> (Inl e, s1\<lparr>logged := logged s1 @ msgs\<rparr>)
          | None \<Rightarrow>
              (let s2 = s1\<lparr>pathItem :=
                          (pathItem s1)\<lparr>Parameters := sort_Slice (Parameters (pathItem s1))\<rparr>\<rparr>
               in (Inr \<lparr>Endpoint = path,
                        DirName = drop (nat (strings_LastIndex parentDir CHR ''/'' + 1)) parentDir,
                        ExportedFuncPrefix = strings_Title u (strings_ToLower u prefix),
                        PrivateFuncPrefix = strings_ToLower u prefix,
                        TemplateParameters = Parameters (pathItem s2),
                        SupportsRead = (Get (pathItem s2) \<noteq> None),
                        SupportsWrite = (Post (pathItem s2) \<noteq> None),
                        SupportsDelete = (Delete (pathItem s2) \<noteq> None)\<rparr>, s2))))"

section \<open>Writing the files\<close>

text \<open>
  Modelled from the spec: the declaration of \<open>FileType\<close> is not in \<open>generate.go\<close>; the spec
  lists the artifact kinds resource code, data source code and documentation.
\<close>

datatype FileType = FileTypeDataSource | FileTypeResource | FileTypeDoc

text \<open>
  What \<open>generate.go\<close> takes from outside: the home directory computed once from the working
  directory, the \<open>String\<close> method of \<open>FileType\<close>, the Unicode tables, and the outcomes of the calls into the
  operating system and the template engine (an error text, or none). \<open>Parse\<close> stands for
  \<open>template.New(fileType.String()).Parse(templates[fileType])\<close>; \<open>Execute\<close> gives the bytes
  the template hands to the writer and its error; \<open>Flush\<close> gives, for the bytes handed to
  the buffered writer, the bytes that reach the file and its error.
\<close>

record env =
  pathToHomeDir :: string
  FileType_String :: "FileType \<Rightarrow> string"
  Unicode :: unicode
  MkdirAll :: "string \<Rightarrow> string option"
  Create :: "string \<Rightarrow> string option"
  Parse :: "FileType \<Rightarrow> string option"
  Execute :: "FileType \<Rightarrow> templateFriendly \<Rightarrow> string \<times> string option"
  Flush :: "string \<Rightarrow> string \<times> string option"
  Close :: "string option"

text \<open>\<open>parseTemplate\<close> returns its result, the bytes handed to the writer, and the state.\<close>

definition parseTemplate ::
  "env \<Rightarrow> FileType \<Rightarrow> string \<Rightarrow> string \<Rightarrow> state \<Rightarrow> (error + unit) \<times> string \<times> state" where
  "parseTemplate e fileType parentDir vaultPath s =
     (case Parse e fileType of
        Some err \<Rightarrow> (Inl (ErrExternal err), [], s)
      | None \<Rightarrow>
          (case toTemplateFriendly (Unicode e) vaultPath parentDir s of
             (Inl err, s1) \<Rightarrow> (Inl err, [], s1)
           | (Inr tmplFriendly, s1) \<Rightarrow>
               (case Execute e fileType tmplFriendly of
                  (out, None) \<Rightarrow> (Inr (), out, s1)
                | (out, Some err) \<Rightarrow> (Inl (ErrExternal err), out, s1))))"

text \<open>
  The two deferred calls of \<open>generateFile\<close>, in the order they run: the flush of the
  buffered writer, then the close of the file. Each logs its error and returns nothing.
  A writer that was handed no bytes has nothing to flush and reports no error.
\<close>

definition deferredFlush :: "env \<Rightarrow> string \<Rightarrow> string \<Rightarrow> state \<Rightarrow> state" where
  "deferredFlush e pathToFile buffered s =
     (if buffered = [] then s
      else
        (case Flush e buffered of
           (written, None) \<Rightarrow> s\<lparr>files := (files s)(pathToFile \<mapsto> written)\<rparr>
         | (written, Some err) \<Rightarrow>
             s\<lparr>files := (files s)(pathToFile \<mapsto> written),
               logged := logged s @ [LogError (ErrExternal err)]\<rparr>))"

definition deferredClose :: "env \<Rightarrow> state \<Rightarrow> state" where
  "deferredClose e s =
     (case Close e of
        None \<Rightarrow> s
      | Some err \<Rightarrow> s\<lparr>logged := logged s @ [LogError (ErrExternal err)]\<rparr>)"

text \<open>
  \<open>generateFile\<close>. \<open>pathToFile[:strings.LastIndex(pathToFile, "/")]\<close> panics when the path
  has no separator. \<open>os.Create\<close> leaves an empty file at the path, also over an existing
  one. The deferred calls run on every way out that follows their \<open>defer\<close> statement.
\<close>

definition generateFile ::
  "env \<Rightarrow> string \<Rightarrow> FileType \<Rightarrow> string \<Rightarrow> state \<Rightarrow> (error + unit) \<times> state" where
  "generateFile e pathToFile fileType vaultPath s =
     (if strings_LastIndex pathToFile CHR ''/'' < 0 then (Inl PanicSliceBounds, s)
      else
        (let parentDir = take (nat (strings_LastIndex pathToFile CHR ''/'')) pathToFile
         in (case MkdirAll e parentDir of
               Some err \<Rightarrow> (Inl (ErrExternal err), s)
             | None \<Rightarrow>
                 (let s1 = s\<lparr>dirs := insert parentDir (dirs s)\<rparr>
                  in (case Create e pathToFile of
                        Some err \<Rightarrow> (Inl (ErrExternal err), s1)
                      | None \<Rightarrow>
                          (let s2 = s1\<lparr>files := (files s1)(pathToFile \<mapsto> [])\<rparr>;
                               (result, buffered, s3) =
                                 parseTemplate e fileType parentDir vaultPath s2;
                               s4 = deferredFlush e pathToFile buffered s3;
                               s5 = deferredClose e s4
                           in (result, s5)))))))"

definition codePathToFile :: "env \<Rightarrow> FileType \<Rightarrow> string \<Rightarrow> string" where
  "codePathToFile e fileType path =
     stripCurlyBraces (pathToHomeDir e @ ''/generated/'' @ FileType_String e fileType @ path @ ''.go'')"

definition docPathToFile :: "env \<Rightarrow> FileType \<Rightarrow> string \<Rightarrow> string" where
  "docPathToFile e fileType path =
     stripCurlyBraces (pathToHomeDir e @ ''/website/docs/generated/'' @ FileType_String e fileType
        @ ''/'' @ replaceSlashesWithDashes path @ ''.md'')"

definition generateCode :: "env \<Rightarrow> FileType \<Rightarrow> string \<Rightarrow> state \<Rightarrow> (error + unit) \<times> state" where
  "generateCode e fileType path s = generateFile e (codePathToFile e fileType path) fileType path s"

definition generateDoc :: "env \<Rightarrow> FileType \<Rightarrow> string \<Rightarrow> state \<Rightarrow> (error + unit) \<times> state" where
  "generateDoc e fileType path s = generateFile e (docPathToFile e fileType path) FileTypeDoc path s"

definition GenerateFiles :: "env \<Rightarrow> FileType \<Rightarrow> string \<Rightarrow> state \<Rightarrow> (error + unit) \<times> state" where
  "GenerateFiles e fileType vaultPath s =
     (case generateCode e fileType vaultPath s of
        (Inl err, s1) \<Rightarrow> (Inl err, s1)
      | (Inr _, s1) \<Rightarrow>
          (case generateDoc e fileType vaultPath s1 of
             (Inl err, s2) \<Rightarrow> (Inl err, s2)
           | (Inr _, s2) \<Rightarrow> (Inr (), s2)))"

section \<open>The properties, in the words of the specification\<close>

text \<open>
  The documentation file name of an endpoint: a leading path separator dropped, the
  remaining separators replaced by dashes, the brace markers stripped.
\<close>

definition dropLeadingSlash :: "string \<Rightarrow> string" where
  "dropLeadingSlash s = (case s of [] \<Rightarrow> [] | c # rest \<Rightarrow> if c = CHR ''/'' then rest else s)"

definition withoutBraces :: "string \<Rightarrow> string" where
  "withoutBraces s = filter (\<lambda>c. c \<noteq> CHR ''{'' \<and> c \<noteq> CHR ''}'') s"

definition flatDocName :: "string \<Rightarrow> string" where
  "flatDocName path =
     withoutBraces (map (\<lambda>c. if c = CHR ''/'' then CHR ''-'' else c) (dropLeadingSlash path))"

text \<open>
  The naming seed of an endpoint: what follows the last path separator (the whole path
  when there is none), without brace markers and without underscores.
\<close>

definition lastSegment :: "string \<Rightarrow> string" where
  "lastSegment path = rev (takeWhile (\<lambda>c. c \<noteq> CHR ''/'') (rev path))"

definition namingSeed :: "string \<Rightarrow> string" where
  "namingSeed path = filter (\<lambda>c. c \<noteq> CHR ''_'') (withoutBraces (lastSegment path))"

text \<open>
  Case and words of ASCII text, by the codes of the bytes: the upper-case letters are the
  codes 65 to 90, the lower-case letters the codes 97 to 122, a letter and its other case
  are 32 apart. A word is a maximal run of letters, digits and underscores.
\<close>

definition lowerCaseOf :: "char \<Rightarrow> char" where
  "lowerCaseOf c =
     (if 65 \<le> (of_char c :: nat) \<and> (of_char c :: nat) \<le> 90
      then char_of (of_char c + 32 :: nat) else c)"

definition upperCaseOf :: "char \<Rightarrow> char" where
  "upperCaseOf c =
     (if 97 \<le> (of_char c :: nat) \<and> (of_char c :: nat) \<le> 122
      then char_of (of_char c - 32 :: nat) else c)"

definition wordByte :: "char \<Rightarrow> bool" where
  "wordByte c =
     (let n = (of_char c :: nat)
      in (48 \<le> n \<and> n \<le> 57) \<or> (65 \<le> n \<and> n \<le> 90) \<or> (97 \<le> n \<and> n \<le> 122) \<or> n = 95)"

definition asciiOnly :: "string \<Rightarrow> bool" where
  "asciiOnly s = list_all (\<lambda>c. (of_char c :: nat) < 128) s"

text \<open>A word with its first letter in upper case.\<close>

definition capitalized :: "string \<Rightarrow> string" where
  "capitalized s = (case s of [] \<Rightarrow> [] | c # cs \<Rightarrow> upperCaseOf c # cs)"

text \<open>A text with the first letter of each of its words in upper case.\<close>

definition wordStart :: "string \<Rightarrow> nat \<Rightarrow> bool" where
  "wordStart s i = (i = 0 \<or> \<not> wordByte (s ! (i - 1)))"

definition capitalizedWords :: "string \<Rightarrow> string" where
  "capitalizedWords s =
     map (\<lambda>i. if wordStart s i then upperCaseOf (s ! i) else s ! i) [0..<length s]"

text \<open>An endpoint with a GET operation only and one path parameter of type string.\<close>

definition example_get_only :: state where
  "example_get_only =
     \<lparr>schemas = [\<lparr>Type = ''string'', SchemaDescription = ''the name'', Properties = None,
                  Items = None, DisplayAttrs = None\<rparr>],
      pathItem = \<lparr>Parameters = [\<lparr>Name = ''name'', Description = ''the name'', In = ''path'',
                                 Schema = Some 0\<rparr>],
                  Get = Some \<lparr>RequestBody = None\<rparr>, Post = None, Delete = None\<rparr>,
      dirs = {}, files = Map.empty, logged = []\<rparr>"

text \<open>
  The environment with the same bytes reaching the file, and no error reported by the
  flush or by the close.
\<close>

definition quietRelease :: "env \<Rightarrow> env" where
  "quietRelease e = e\<lparr>Flush := (\<lambda>buffered. (fst (Flush e buffered), None)), Close := None\<rparr>"

text \<open>The lines the two deferred calls log for the bytes handed to the writer.\<close>

definition releaseLog :: "env \<Rightarrow> string \<Rightarrow> logmsg list" where
  "releaseLog e buffered =
     (if buffered = [] then []
      else (case snd (Flush e buffered) of None \<Rightarrow> [] | Some err \<Rightarrow> [LogError (ErrExternal err)]))
     @ (case Close e of None \<Rightarrow> [] | Some err \<Rightarrow> [LogError (ErrExternal err)])"

text \<open>
  \<open>generateFile\<close> gets as far as its template when the path has a separator and neither
  the directory nor the file creation fails; the disk then holds the parent directory
  and an empty file at the path.
\<close>

definition opens :: "env \<Rightarrow> string \<Rightarrow> bool" where
  "opens e pathToFile =
     (0 \<le> strings_LastIndex pathToFile CHR ''/''
      \<and> MkdirAll e (take (nat (strings_LastIndex pathToFile CHR ''/'')) pathToFile) = None
      \<and> Create e pathToFile = None)"

definition created :: "string \<Rightarrow> state \<Rightarrow> state" where
  "created pathToFile s =
     s\<lparr>dirs := insert (take (nat (strings_LastIndex pathToFile CHR ''/'')) pathToFile) (dirs s),
       files := (files s)(pathToFile \<mapsto> [])\<rparr>"

text \<open>
  The bytes the template has handed to the buffered writer when \<open>generateFile\<close> comes
  to its deferred calls.
\<close>

definition handedToWriter :: "env \<Rightarrow> string \<Rightarrow> FileType \<Rightarrow> string \<Rightarrow> state \<Rightarrow> string" where
  "handedToWriter e pathToFile fileType vaultPath s =
     fst (snd (parseTemplate e fileType
       (take (nat (strings_LastIndex pathToFile CHR ''/'')) pathToFile) vaultPath
       (created pathToFile s)))"

text \<open>
  What the release of the file has to report: nothing when the file was never created,
  else the error of the flush, then the error of the close.
\<close>

definition releaseReport :: "env \<Rightarrow> string \<Rightarrow> FileType \<Rightarrow> string \<Rightarrow> state \<Rightarrow> logmsg list" where
  "releaseReport e pathToFile fileType vaultPath s =
     (if opens e pathToFile then releaseLog e (handedToWriter e pathToFile fileType vaultPath s)
      else [])"

text \<open>The content map of the POST request body, when all three of them are there.\<close>

definition postContent :: "OASPathItem \<Rightarrow> (string \<times> OASMediaTypeObject) list option" where
  "postContent item =
     (case Post item of
        None \<Rightarrow> None
      | Some post \<Rightarrow> (case RequestBody post of None \<Rightarrow> None | Some body \<Rightarrow> Content body))"

text \<open>
  Go pointers never dangle: every address held by a parameter, by a media type or by a
  property of a schema object is an address of the store.
\<close>

definition validRef :: "OASSchema list \<Rightarrow> ref option \<Rightarrow> bool" where
  "validRef h x = (case x of None \<Rightarrow> True | Some r \<Rightarrow> r < length h)"

definition validSchema :: "OASSchema list \<Rightarrow> OASSchema \<Rightarrow> bool" where
  "validSchema h obj =
     (case Properties obj of
        None \<Rightarrow> True
      | Some properties \<Rightarrow> list_all (\<lambda>property. validRef h (snd property)) properties)"

definition validStore :: "OASSchema list \<Rightarrow> bool" where
  "validStore h = list_all (validSchema h) h"

definition validState :: "state \<Rightarrow> bool" where
  "validState s =
     (validStore (schemas s)
      \<and> list_all (\<lambda>param. validRef (schemas s) (Schema param)) (Parameters (pathItem s))
      \<and> (case postContent (pathItem s) of
           None \<Rightarrow> True
         | Some content \<Rightarrow>
             list_all (\<lambda>entry. validRef (schemas s) (MediaTypeSchema (snd entry))) content))"

text \<open>The names of the properties the request body declares, over all its media types.\<close>

definition propertyNames :: "OASSchema list \<Rightarrow> (string \<times> OASMediaTypeObject) list \<Rightarrow> string list" where
  "propertyNames h content =
     concat (map (\<lambda>entry.
        case MediaTypeSchema (snd entry) of
          None \<Rightarrow> []
        | Some r \<Rightarrow> (case Properties (h ! r) of None \<Rightarrow> [] | Some properties \<Rightarrow> map fst properties))
      content)"

definition bodyPropertyNames :: "state \<Rightarrow> string list" where
  "bodyPropertyNames s =
     (case postContent (pathItem s) of
        None \<Rightarrow> []
      | Some content \<Rightarrow> propertyNames (schemas s) content)"

text \<open>
  One schema object before and after: nothing differs but display attributes that were
  absent and are now the empty ones. A store grows into another when it keeps its
  addresses and each of its objects changes at most in that way.
\<close>

definition normalizes :: "OASSchema \<Rightarrow> OASSchema \<Rightarrow> bool" where
  "normalizes a b =
     (Type b = Type a \<and> SchemaDescription b = SchemaDescription a
      \<and> Properties b = Properties a \<and> Items b = Items a
      \<and> (DisplayAttrs b = DisplayAttrs a
          \<or> (DisplayAttrs a = None \<and> DisplayAttrs b = Some zeroDisplayAttributes)))"

definition grows :: "OASSchema list \<Rightarrow> OASSchema list \<Rightarrow> bool" where
  "grows h h' = (length h \<le> length h' \<and> list_all2 normalizes h (take (length h) h'))"

text \<open>What the first loop of the extraction does to the store for one parameter.\<close>

definition populateParam :: "OASParameter \<Rightarrow> OASSchema list \<Rightarrow> OASSchema list" where
  "populateParam param h =
     (case Schema param of None \<Rightarrow> h | Some r \<Rightarrow> populateDisplayAttrs r h)"

text \<open>A parameter whose schema is present, with display attributes present.\<close>

definition populated :: "OASSchema list \<Rightarrow> OASParameter \<Rightarrow> bool" where
  "populated h param =
     (case Schema param of None \<Rightarrow> False | Some r \<Rightarrow> r < length h \<and> DisplayAttrs (h ! r) \<noteq> None)"

text \<open>
  The steps of the second loop of the extraction, named: the address a property's
  parameter refers to, the store after the step, the parameter appended, and the
  properties one media type contributes.
\<close>

definition propertyRef :: "OASSchema list \<Rightarrow> ref option \<Rightarrow> ref" where
  "propertyRef h x = (case x of None \<Rightarrow> length h | Some r \<Rightarrow> r)"

definition propertyStore :: "OASSchema list \<Rightarrow> ref option \<Rightarrow> OASSchema list" where
  "propertyStore h x =
     populateDisplayAttrs (propertyRef h x) (case x of None \<Rightarrow> h @ [zeroSchema] | Some r \<Rightarrow> h)"

definition propertyParam :: "OASSchema list \<Rightarrow> string \<Rightarrow> ref option \<Rightarrow> OASParameter" where
  "propertyParam h n x =
     \<lparr>Name = n, Description = SchemaDescription (propertyStore h x ! propertyRef h x),
      In = ''post'', Schema = Some (propertyRef h x)\<rparr>"

definition mediaProperties :: "OASSchema list \<Rightarrow> OASMediaTypeObject \<Rightarrow> (string \<times> ref option) list" where
  "mediaProperties h m =
     (case MediaTypeSchema m of
        None \<Rightarrow> []
      | Some r \<Rightarrow> (case Properties (h ! r) of None \<Rightarrow> [] | Some properties \<Rightarrow> properties))"

text \<open>
  An endpoint with GET and POST: one path parameter \<open>name\<close>, and a request body that
  declares the properties \<open>ttl\<close> and \<open>name\<close>.
\<close>

definition example_post :: state where
  "example_post =
     \<lparr>schemas =
        [\<lparr>Type = ''string'', SchemaDescription = ''the name'', Properties = None,
          Items = None, DisplayAttrs = None\<rparr>,
         \<lparr>Type = ''object'', SchemaDescription = '''',
          Properties = Some [(''ttl'', Some 2), (''name'', Some 3)], Items = None, DisplayAttrs = None\<rparr>,
         \<lparr>Type = ''integer'', SchemaDescription = ''time to live'', Properties = None,
          Items = None, DisplayAttrs = None\<rparr>,
         \<lparr>Type = ''integer'', SchemaDescription = ''a number'', Properties = None,
          Items = None, DisplayAttrs = None\<rparr>],
      pathItem =
        \<lparr>Parameters = [\<lparr>Name = ''name'', Description = ''the name'', In = ''path'',
                        Schema = Some 0\<rparr>],
         Get = Some \<lparr>RequestBody = None\<rparr>,
         Post = Some \<lparr>RequestBody = Some \<lparr>Content =
                  Some [(''application/json'', \<lparr>MediaTypeSchema = Some 1\<rparr>)]\<rparr>\<rparr>,
         Delete = None\<rparr>,
      dirs = {}, files = Map.empty, logged = []\<rparr>"

text \<open>The same endpoint, its path parameter without a schema.\<close>

definition example_slip :: state where
  "example_slip =
     example_post\<lparr>pathItem := (pathItem example_post)
       \<lparr>Parameters := [\<lparr>Name = ''name'', Description = ''the name'', In = ''path'',
                         Schema = None\<rparr>]\<rparr>\<rparr>"

text \<open>
  An endpoint with GET only: a parameter without a schema, followed by a parameter of
  type \<open>object\<close>.
\<close>

definition example_absent :: state where
  "example_absent =
     \<lparr>schemas = [\<lparr>Type = ''object'', SchemaDescription = ''settings'', Properties = None,
                  Items = None, DisplayAttrs = None\<rparr>],
      pathItem =
        \<lparr>Parameters = [\<lparr>Name = ''name'', Description = ''the name'', In = ''path'',
                        Schema = None\<rparr>,
                       \<lparr>Name = ''config'', Description = ''settings'', In = ''path'',
                        Schema = Some 0\<rparr>],
         Get = Some \<lparr>RequestBody = None\<rparr>, Post = None, Delete = None\<rparr>,
      dirs = {}, files = Map.empty, logged = []\<rparr>"

text \<open>Every parameter of the path item has a schema, with display attributes.\<close>

definition allPopulated :: "state \<Rightarrow> bool" where
  "allPopulated s = list_all (populated (schemas s)) (Parameters (pathItem s))"

text \<open>
  The type tag of a parameter, when it has a schema; the supported tags; a parameter
  whose tag is outside them.
\<close>

definition typeTag :: "OASSchema list \<Rightarrow> OASParameter \<Rightarrow> string option" where
  "typeTag h param = (case Schema param of None \<Rightarrow> None | Some r \<Rightarrow> Some (Type (h ! r)))"

definition supportedTags :: "string set" where
  "supportedTags = {''array'', ''boolean'', ''integer'', ''string''}"

definition unsupportedParam :: "OASSchema list \<Rightarrow> OASParameter \<Rightarrow> bool" where
  "unsupportedParam h param =
     (case typeTag h param of None \<Rightarrow> False | Some t \<Rightarrow> t \<notin> supportedTags)"

text \<open>The parameters that come before the first parameter without a schema.\<close>

definition beforeAbsentSchema :: "OASParameter list \<Rightarrow> OASParameter list" where
  "beforeAbsentSchema params = takeWhile (\<lambda>param. Schema param \<noteq> None) params"







text \<open>
  An endpoint with POST only, whose request body declares a property \<open>config\<close> of type
  \<open>object\<close>.
\<close>

definition example_unsupported :: state where
  "example_unsupported =
     \<lparr>schemas =
        [\<lparr>Type = ''string'', SchemaDescription = ''the name'', Properties = None,
          Items = None, DisplayAttrs = None\<rparr>,
         \<lparr>Type = ''object'', SchemaDescription = '''',
          Properties = Some [(''config'', Some 2)], Items = None, DisplayAttrs = None\<rparr>,
         \<lparr>Type = ''object'', SchemaDescription = ''settings'', Properties = None,
          Items = None, DisplayAttrs = None\<rparr>],
      pathItem =
        \<lparr>Parameters = [\<lparr>Name = ''name'', Description = ''the name'', In = ''path'',
                        Schema = Some 0\<rparr>],
         Get = None,
         Post = Some \<lparr>RequestBody = Some \<lparr>Content =
                  Some [(''application/json'', \<lparr>MediaTypeSchema = Some 1\<rparr>)]\<rparr>\<rparr>,
         Delete = None\<rparr>,
      dirs = {}, files = Map.empty, logged = []\<rparr>"


text \<open>
  Tables for the examples whose paths are ASCII, and an environment in which every call
  into the operating system and the template engine succeeds.
\<close>

definition example_unicode :: unicode where
  "example_unicode = \<lparr>MapToLower = (\<lambda>s. s), MapTitle = (\<lambda>s. s)\<rparr>"

text \<open>
  An excerpt of the Unicode tables. The three words are the UTF-8 bytes of \<open>ECOLE\<close>,
  \<open>ecole\<close> and \<open>Ecole\<close> with an acute accent on the first letter, which is U+00C9 in
  upper case and U+00E9 in lower case: the first in lower case is the second, and the
  second in title case is the third.
\<close>

definition example_upper_word :: string where
  "example_upper_word = [CHR 0xC3, CHR 0x89] @ ''COLE''"

definition example_lower_word :: string where
  "example_lower_word = [CHR 0xC3, CHR 0xA9] @ ''cole''"

definition example_title_word :: string where
  "example_title_word = [CHR 0xC3, CHR 0x89] @ ''cole''"

definition example_tables :: unicode where
  "example_tables =
     \<lparr>MapToLower = (\<lambda>s. if s = example_upper_word then example_lower_word else s),
      MapTitle = (\<lambda>s. if s = example_lower_word then example_title_word else s)\<rparr>"

definition example_accent_path :: string where
  "example_accent_path = ''/transform/'' @ example_upper_word"

definition example_env :: env where
  "example_env =
     \<lparr>pathToHomeDir = ''/repo'',
      FileType_String = (\<lambda>t. case t of FileTypeDataSource \<Rightarrow> ''datasource''
                                | FileTypeResource \<Rightarrow> ''resource'' | FileTypeDoc \<Rightarrow> ''doc''),
      Unicode = example_unicode,
      MkdirAll = (\<lambda>dir. None), Create = (\<lambda>file. None), Parse = (\<lambda>t. None),
      Execute = (\<lambda>t tf. (''generated'', None)), Flush = (\<lambda>buffered. (buffered, None)),
      Close = None\<rparr>"

text \<open>An environment in which the flush writes three bytes and fails, and the close fails.\<close>

definition example_failing_release :: env where
  "example_failing_release =
     example_env\<lparr>Flush := (\<lambda>buffered. (take 3 buffered, Some ''disk full'')),
                  Close := Some ''bad file descriptor''\<rparr>"


text \<open>
  The context \<open>toTemplateFriendly\<close> assembles from a path, a parent directory and the
  path item it has extracted and validated.
\<close>

definition contextOf ::
  "unicode \<Rightarrow> string \<Rightarrow> string \<Rightarrow> OASPathItem \<Rightarrow> templateFriendly" where
  "contextOf u path parentDir item =
     \<lparr>Endpoint = path,
      DirName = drop (nat (strings_LastIndex parentDir CHR ''/'' + 1)) parentDir,
      ExportedFuncPrefix = strings_Title u (strings_ToLower u (pathPrefix path)),
      PrivateFuncPrefix = strings_ToLower u (pathPrefix path),
      TemplateParameters = sort_Slice (Parameters item),
      SupportsRead = (Get item \<noteq> None),
      SupportsWrite = (Post item \<noteq> None),
      SupportsDelete = (Delete item \<noteq> None)\<rparr>"

text \<open>An endpoint with GET only and two path parameters, \<open>role\<close> before \<open>name\<close>.\<close>

definition example_two :: state where
  "example_two =
     \<lparr>schemas =
        [\<lparr>Type = ''string'', SchemaDescription = ''the role'', Properties = None,
          Items = None, DisplayAttrs = None\<rparr>,
         \<lparr>Type = ''string'', SchemaDescription = ''the name'', Properties = None,
          Items = None, DisplayAttrs = None\<rparr>],
      pathItem =
        \<lparr>Parameters = [\<lparr>Name = ''role'', Description = ''the role'', In = ''path'',
                        Schema = Some 0\<rparr>,
                       \<lparr>Name = ''name'', Description = ''the name'', In = ''path'',
                        Schema = Some 1\<rparr>],
         Get = Some \<lparr>RequestBody = None\<rparr>, Post = None, Delete = None\<rparr>,
      dirs = {}, files = Map.empty, logged = []\<rparr>"

section \<open>Paths and names\<close>

lemma strings_Replace_remove: "strings_Replace s c [] = filter (\<lambda>x. x \<noteq> c) s"
  by (induction s) (simp_all add: strings_Replace_def)

lemma strings_Replace_char: "strings_Replace s c [d] = map (\<lambda>x. if x = c then d else x) s"
  by (induction s) (simp_all add: strings_Replace_def)

lemma stripCurlyBraces_withoutBraces: "stripCurlyBraces s = withoutBraces s"
  by (simp add: stripCurlyBraces_def withoutBraces_def strings_Replace_remove conj_commute)

lemma withoutBraces_append: "withoutBraces (a @ b) = withoutBraces a @ withoutBraces b"
  by (simp add: withoutBraces_def)

lemma withoutBraces_free:
  "CHR ''{'' \<notin> set (withoutBraces s) \<and> CHR ''}'' \<notin> set (withoutBraces s)"
  by (simp add: withoutBraces_def)

lemma replaceSlashesWithDashes_map:
  "replaceSlashesWithDashes s =
     map (\<lambda>c. if c = CHR ''/'' then CHR ''-'' else c) (dropLeadingSlash s)"
  by (cases s)
    (simp_all add: replaceSlashesWithDashes_def strings_HasPrefix_def strings_Replace_char
      dropLeadingSlash_def)

lemma docPathToFile_parts:
  "docPathToFile e fileType path =
     withoutBraces (pathToHomeDir e) @ ''/website/docs/generated/''
       @ withoutBraces (FileType_String e fileType) @ ''/'' @ flatDocName path @ ''.md''"
proof -
  have fixed: "withoutBraces ''/website/docs/generated/'' = ''/website/docs/generated/''"
    "withoutBraces ''/'' = ''/''" "withoutBraces ''.md'' = ''.md''"
    by (simp_all add: withoutBraces_def)
  show ?thesis
    unfolding docPathToFile_def stripCurlyBraces_withoutBraces withoutBraces_append fixed
      flatDocName_def replaceSlashesWithDashes_map
    by simp
qed

lemma codePathToFile_parts:
  "codePathToFile e fileType path =
     withoutBraces (pathToHomeDir e) @ ''/generated/''
       @ withoutBraces (FileType_String e fileType) @ withoutBraces path @ ''.go''"
proof -
  have fixed: "withoutBraces ''/generated/'' = ''/generated/''" "withoutBraces ''.go'' = ''.go''"
    by (simp_all add: withoutBraces_def)
  show ?thesis
    unfolding codePathToFile_def stripCurlyBraces_withoutBraces withoutBraces_append fixed
    by simp
qed

lemma flatDocName_example:
  "flatDocName ''/transform/transformation/{name}'' = ''transform-transformation-name''"
  by (simp add: flatDocName_def dropLeadingSlash_def withoutBraces_def)

text \<open>
  C8. The documentation file of an endpoint is named by the endpoint path with a leading
  separator dropped, the other separators turned into dashes and the braces stripped, so
  \<open>/transform/transformation/{name}\<close> gives \<open>transform-transformation-name\<close>; the path
  of the code file has the endpoint path with its braces stripped, and neither path
  holds a brace.
\<close>

theorem output_paths:
  "docPathToFile e fileType path =
     withoutBraces (pathToHomeDir e) @ ''/website/docs/generated/''
       @ withoutBraces (FileType_String e fileType) @ ''/'' @ flatDocName path @ ''.md''
   \<and> flatDocName ''/transform/transformation/{name}'' = ''transform-transformation-name''
   \<and> codePathToFile e fileType path =
     withoutBraces (pathToHomeDir e) @ ''/generated/''
       @ withoutBraces (FileType_String e fileType) @ withoutBraces path @ ''.go''
   \<and> CHR ''{'' \<notin> set (docPathToFile e fileType path)
   \<and> CHR ''}'' \<notin> set (docPathToFile e fileType path)
   \<and> CHR ''{'' \<notin> set (codePathToFile e fileType path)
   \<and> CHR ''}'' \<notin> set (codePathToFile e fileType path)"
proof -
  have "CHR ''{'' \<notin> set (docPathToFile e fileType path)"
    "CHR ''}'' \<notin> set (docPathToFile e fileType path)"
    "CHR ''{'' \<notin> set (codePathToFile e fileType path)"
    "CHR ''}'' \<notin> set (codePathToFile e fileType path)"
    using withoutBraces_free
    by (simp_all add: docPathToFile_def codePathToFile_def stripCurlyBraces_withoutBraces)
  then show ?thesis
    using docPathToFile_parts codePathToFile_parts flatDocName_example by blast
qed

lemma strings_Split_nonempty: "strings_Split s sep \<noteq> []"
  by (induction s) simp_all

lemma strings_Split_no_sep: "sep \<notin> set s \<Longrightarrow> strings_Split s sep = [s]"
  by (induction s) auto

lemma strings_Split_sep: "sep \<in> set s \<Longrightarrow> tl (strings_Split s sep) \<noteq> []"
  by (induction s) (auto simp: strings_Split_nonempty)

lemma last_strings_Split:
  "last (strings_Split s sep) = rev (takeWhile (\<lambda>c. c \<noteq> sep) (rev s))"
proof (induction s)
  case Nil
  then show ?case by simp
next
  case (Cons c cs)
  show ?case
  proof (cases "sep \<in> set cs")
    case True
    then have "tl (strings_Split cs sep) \<noteq> []" by (rule strings_Split_sep)
    then have "last (strings_Split (c # cs) sep) = last (strings_Split cs sep)"
      using strings_Split_nonempty[of cs sep] by (cases "strings_Split cs sep") auto
    moreover have "takeWhile (\<lambda>c. c \<noteq> sep) (rev cs @ [c]) = takeWhile (\<lambda>c. c \<noteq> sep) (rev cs)"
      using True by (auto simp: takeWhile_append)
    ultimately show ?thesis using Cons by simp
  next
    case False
    then have "strings_Split cs sep = [cs]" by (rule strings_Split_no_sep)
    then show ?thesis using False by (auto simp: takeWhile_append)
  qed
qed

lemma pathPrefix_namingSeed: "pathPrefix path = namingSeed path"
proof -
  let ?fs = "strings_Split path CHR ''/''"
  have ne: "?fs \<noteq> []" by (rule strings_Split_nonempty)
  have "(if length ?fs > 1 then ?fs ! (length ?fs - 1) else ?fs ! 0) = last ?fs"
    using ne by (cases ?fs) (auto simp: last_conv_nth)
  then show ?thesis
    by (simp add: pathPrefix_def Let_def namingSeed_def lastSegment_def last_strings_Split
        stripCurlyBraces_withoutBraces strings_Replace_remove)
qed

section \<open>Naming and capability flags\<close>

lemma example_get_only_run:
  "fst (toTemplateFriendly example_unicode ''/transform/{name}'' ''/home/generated/resource/transform''
     example_get_only) =
   Inr \<lparr>Endpoint = ''/transform/{name}'', DirName = ''transform'', ExportedFuncPrefix = ''Name'',
        PrivateFuncPrefix = ''name'',
        TemplateParameters = [\<lparr>Name = ''name'', Description = ''the name'', In = ''path'',
                                 Schema = Some 0\<rparr>],
        SupportsRead = True, SupportsWrite = False, SupportsDelete = False\<rparr>"
  by code_simp

lemma toLowerChar_lowerCaseOf: "toLowerChar c = lowerCaseOf c"
proof (cases c)
  case (Char b0 b1 b2 b3 b4 b5 b6 b7)
  show ?thesis
    unfolding Char toLowerChar_def lowerCaseOf_def less_eq_char_def
    by (cases b0; cases b1; cases b2; cases b3; cases b4; cases b5; cases b6; cases b7)
       (simp_all add: char_of_def bit_Suc_0_iff)
qed

lemma toTitleChar_upperCaseOf: "toTitleChar c = upperCaseOf c"
proof (cases c)
  case (Char b0 b1 b2 b3 b4 b5 b6 b7)
  show ?thesis
    unfolding Char toTitleChar_def upperCaseOf_def less_eq_char_def
    by (cases b0; cases b1; cases b2; cases b3; cases b4; cases b5; cases b6; cases b7)
       (simp_all add: char_of_def bit_Suc_0_iff)
qed

lemma isSeparator_wordByte: "(of_char c :: nat) < 128 \<Longrightarrow> isSeparator c = (\<not> wordByte c)"
proof (cases c)
  case (Char b0 b1 b2 b3 b4 b5 b6 b7)
  assume "(of_char c :: nat) < 128"
  then show ?thesis
    unfolding Char isSeparator_def wordByte_def less_eq_char_def Let_def
    by (cases b0; cases b1; cases b2; cases b3; cases b4; cases b5; cases b6; cases b7)
       simp_all
qed

lemma isASCII_asciiOnly: "isASCII s = asciiOnly s"
  by (simp add: isASCII_def asciiOnly_def less_char_def)

lemma length_Title_from [simp]: "length (Title_from prev s) = length s"
  by (induction s arbitrary: prev) simp_all

lemma Title_from_nth:
  "i < length s \<Longrightarrow>
     Title_from prev s ! i =
       (if isSeparator (if i = 0 then prev else s ! (i - 1)) then toTitleChar (s ! i) else s ! i)"
proof (induction s arbitrary: prev i)
  case Nil
  then show ?case by simp
next
  case (Cons c cs)
  show ?case
  proof (cases i)
    case 0
    then show ?thesis by simp
  next
    case (Suc j)
    then have "j < length cs" using Cons.prems by simp
    then show ?thesis using Cons.IH[of j c] Suc by (cases j) simp_all
  qed
qed

lemma capitalizedWords_nth:
  "i < length s \<Longrightarrow>
     capitalizedWords s ! i = (if wordStart s i then upperCaseOf (s ! i) else s ! i)"
  by (simp add: capitalizedWords_def)

lemma length_capitalizedWords [simp]: "length (capitalizedWords s) = length s"
  by (simp add: capitalizedWords_def)

lemma Title_from_capitalizedWords:
  assumes "asciiOnly s"
  shows "Title_from CHR '' '' s = capitalizedWords s"
proof (rule nth_equalityI)
  show "length (Title_from CHR '' '' s) = length (capitalizedWords s)"
    by simp
next
  fix i assume "i < length (Title_from CHR '' '' s)"
  then have i: "i < length s" by simp
  have sep: "isSeparator (if i = 0 then CHR '' '' else s ! (i - 1)) = wordStart s i"
  proof (cases i)
    case 0
    then show ?thesis by (simp add: wordStart_def isSeparator_def)
  next
    case (Suc j)
    then have "j < length s" using i by simp
    then have "(of_char (s ! j) :: nat) < 128"
      using assms by (simp add: asciiOnly_def list_all_length)
    then show ?thesis using Suc by (simp add: wordStart_def isSeparator_wordByte)
  qed
  show "Title_from CHR '' '' s ! i = capitalizedWords s ! i"
    using i by (simp only: Title_from_nth sep capitalizedWords_nth toTitleChar_upperCaseOf)
qed

lemma capitalized_nth:
  "i < length s \<Longrightarrow> capitalized s ! i = (if i = 0 then upperCaseOf (s ! i) else s ! i)"
  by (cases s; cases i) (simp_all add: capitalized_def)

lemma length_capitalized [simp]: "length (capitalized s) = length s"
  by (cases s) (simp_all add: capitalized_def)

lemma capitalizedWords_one_word:
  assumes "list_all wordByte s"
  shows "capitalizedWords s = capitalized s"
proof (rule nth_equalityI)
  show "length (capitalizedWords s) = length (capitalized s)" by simp
next
  fix i assume "i < length (capitalizedWords s)"
  then have i: "i < length s" by simp
  have "wordStart s i = (i = 0)"
  proof (cases i)
    case 0
    then show ?thesis by (simp add: wordStart_def)
  next
    case (Suc j)
    then have "j < length s" using i by simp
    then have "wordByte (s ! j)" using assms by (simp add: list_all_length)
    then show ?thesis using Suc by (simp add: wordStart_def)
  qed
  then show "capitalizedWords s ! i = capitalized s ! i"
    using i by (simp add: capitalizedWords_nth capitalized_nth)
qed

lemma toTemplateFriendly_prefixes:
  assumes "fst (toTemplateFriendly u path parentDir s) = Inr tf"
  shows "PrivateFuncPrefix tf = strings_ToLower u (namingSeed path)"
    and "ExportedFuncPrefix tf = strings_Title u (PrivateFuncPrefix tf)"
  using assms
  by (auto simp: toTemplateFriendly_def Let_def pathPrefix_namingSeed
      split: option.splits prod.splits)

text \<open>
  C7, amended. The private prefix is the naming seed in lower case. The exported prefix is
  the private prefix with the first letter of each of its words in upper case, a word
  being a maximal run of letters, digits and underscores; when the private prefix is one
  word, that is the private prefix capitalized. This is for a seed of ASCII bytes; a seed
  with a byte from 128 on is mapped by the Unicode tables of the Go library.
  \<open>/transform/{name}\<close> gives \<open>Name\<close> and \<open>name\<close>.
\<close>

theorem naming_prefixes:
  assumes "fst (toTemplateFriendly u path parentDir s) = Inr tf"
  shows "(asciiOnly (namingSeed path) \<longrightarrow>
            PrivateFuncPrefix tf = map lowerCaseOf (namingSeed path))
    \<and> (\<not> asciiOnly (namingSeed path) \<longrightarrow>
            PrivateFuncPrefix tf = MapToLower u (namingSeed path))
    \<and> (asciiOnly (PrivateFuncPrefix tf) \<longrightarrow>
            ExportedFuncPrefix tf = capitalizedWords (PrivateFuncPrefix tf))
    \<and> (\<not> asciiOnly (PrivateFuncPrefix tf) \<longrightarrow>
            ExportedFuncPrefix tf = MapTitle u (PrivateFuncPrefix tf))
    \<and> (asciiOnly (PrivateFuncPrefix tf) \<and> list_all wordByte (PrivateFuncPrefix tf) \<longrightarrow>
            ExportedFuncPrefix tf = capitalized (PrivateFuncPrefix tf))
    \<and> (path = ''/transform/{name}'' \<longrightarrow>
            ExportedFuncPrefix tf = ''Name'' \<and> PrivateFuncPrefix tf = ''name'')"
proof -
  note p = toTemplateFriendly_prefixes[OF assms]
  have 1: "PrivateFuncPrefix tf = map lowerCaseOf (namingSeed path)" if "asciiOnly (namingSeed path)"
    using that p(1) toLowerChar_lowerCaseOf by (simp add: strings_ToLower_def isASCII_asciiOnly)
  have 2: "PrivateFuncPrefix tf = MapToLower u (namingSeed path)" if "\<not> asciiOnly (namingSeed path)"
    using that p(1) by (simp add: strings_ToLower_def isASCII_asciiOnly)
  have 3: "ExportedFuncPrefix tf = capitalizedWords (PrivateFuncPrefix tf)"
    if "asciiOnly (PrivateFuncPrefix tf)"
    using that p(2) by (simp add: strings_Title_def isASCII_asciiOnly Title_from_capitalizedWords)
  have 4: "ExportedFuncPrefix tf = MapTitle u (PrivateFuncPrefix tf)"
    if "\<not> asciiOnly (PrivateFuncPrefix tf)"
    using that p(2) by (simp add: strings_Title_def isASCII_asciiOnly)
  have 5: "ExportedFuncPrefix tf = capitalized (PrivateFuncPrefix tf)"
    if "asciiOnly (PrivateFuncPrefix tf)" "list_all wordByte (PrivateFuncPrefix tf)"
    using 3[OF that(1)] capitalizedWords_one_word[OF that(2)] by simp
  have seed: "namingSeed ''/transform/{name}'' = ''name''"
    by (simp add: namingSeed_def lastSegment_def withoutBraces_def)
  have 6: "ExportedFuncPrefix tf = ''Name'' \<and> PrivateFuncPrefix tf = ''name''"
    if "path = ''/transform/{name}''"
  proof -
    have "asciiOnly (namingSeed path)" unfolding that seed by (simp add: asciiOnly_def)
    then have pr: "PrivateFuncPrefix tf = ''name''"
      using 1 unfolding that seed by (simp add: lowerCaseOf_def)
    have "asciiOnly ''name''" "list_all wordByte ''name''"
      by (simp_all add: asciiOnly_def wordByte_def)
    then have "ExportedFuncPrefix tf = capitalized ''name''" using 5 pr by simp
    then show ?thesis using pr by (simp add: capitalized_def upperCaseOf_def char_of_def bit_Suc_0_iff)
  qed
  show ?thesis using 1 2 3 4 5 6 by blast
qed

lemma example_hyphen_run:
  "fst (toTemplateFriendly example_unicode ''/sys/step-down''
     ''/repo/generated/resource/sys'' example_get_only) =
   Inr \<lparr>Endpoint = ''/sys/step-down'', DirName = ''sys'',
        ExportedFuncPrefix = ''Step-Down'', PrivateFuncPrefix = ''step-down'',
        TemplateParameters = [\<lparr>Name = ''name'', Description = ''the name'', In = ''path'',
                                 Schema = Some 0\<rparr>],
        SupportsRead = True, SupportsWrite = False, SupportsDelete = False\<rparr>"
  by code_simp

text \<open>
  C7 as the specification words it fails where the seed has more than one word:
  \<open>/sys/step-down\<close> gives the exported prefix \<open>Step-Down\<close>, and the private prefix
  \<open>step-down\<close> capitalized is \<open>Step-down\<close>.
\<close>

theorem naming_prefixes_counterexample:
  "fst (toTemplateFriendly example_unicode ''/sys/step-down''
     ''/repo/generated/resource/sys'' example_get_only) =
   Inr \<lparr>Endpoint = ''/sys/step-down'', DirName = ''sys'',
        ExportedFuncPrefix = ''Step-Down'', PrivateFuncPrefix = ''step-down'',
        TemplateParameters = [\<lparr>Name = ''name'', Description = ''the name'', In = ''path'',
                                 Schema = Some 0\<rparr>],
        SupportsRead = True, SupportsWrite = False, SupportsDelete = False\<rparr>
   \<and> capitalized ''step-down'' = ''Step-down''
   \<and> capitalized ''step-down'' \<noteq> ''Step-Down''"
  using example_hyphen_run
  by (simp add: capitalized_def upperCaseOf_def char_of_def bit_Suc_0_iff)

lemma example_upper_run:
  "fst (toTemplateFriendly example_unicode ''/sys/Mount_{NAME}''
     ''/repo/generated/resource/sys'' example_get_only) =
   Inr \<lparr>Endpoint = ''/sys/Mount_{NAME}'', DirName = ''sys'',
        ExportedFuncPrefix = ''Mountname'', PrivateFuncPrefix = ''mountname'',
        TemplateParameters = [\<lparr>Name = ''name'', Description = ''the name'', In = ''path'',
                                 Schema = Some 0\<rparr>],
        SupportsRead = True, SupportsWrite = False, SupportsDelete = False\<rparr>"
  by code_simp

lemma example_accent_run:
  "fst (toTemplateFriendly example_tables example_accent_path
     ''/home/generated/resource/transform'' example_get_only) =
   Inr \<lparr>Endpoint = example_accent_path, DirName = ''transform'',
        ExportedFuncPrefix = example_title_word, PrivateFuncPrefix = example_lower_word,
        TemplateParameters = [\<lparr>Name = ''name'', Description = ''the name'', In = ''path'',
                                 Schema = Some 0\<rparr>],
        SupportsRead = True, SupportsWrite = False, SupportsDelete = False\<rparr>"
  by code_simp

text \<open>
  C7 at \<open>/sys/Mount_{NAME}\<close>, a seed with upper-case letters, at \<open>/transform/{name}\<close>,
  and at a seed that is not ASCII.
\<close>

theorem naming_prefixes_witness:
  "namingSeed ''/sys/Mount_{NAME}'' = ''MountNAME''
   \<and> asciiOnly ''MountNAME'' \<and> map lowerCaseOf ''MountNAME'' = ''mountname''
   \<and> asciiOnly ''mountname'' \<and> list_all wordByte ''mountname''
   \<and> capitalized ''mountname'' = ''Mountname''
   \<and> (\<exists>tf. fst (toTemplateFriendly example_unicode ''/sys/Mount_{NAME}''
              ''/repo/generated/resource/sys'' example_get_only) = Inr tf
         \<and> PrivateFuncPrefix tf = ''mountname'' \<and> ExportedFuncPrefix tf = ''Mountname'')
   \<and> (\<exists>tf. fst (toTemplateFriendly example_unicode ''/transform/{name}''
              ''/home/generated/resource/transform'' example_get_only) = Inr tf
         \<and> ExportedFuncPrefix tf = ''Name'' \<and> PrivateFuncPrefix tf = ''name'')
   \<and> namingSeed example_accent_path = example_upper_word
   \<and> \<not> asciiOnly example_upper_word \<and> \<not> asciiOnly example_lower_word
   \<and> MapToLower example_tables example_upper_word = example_lower_word
   \<and> MapTitle example_tables example_lower_word = example_title_word
   \<and> (\<exists>tf. fst (toTemplateFriendly example_tables example_accent_path
              ''/home/generated/resource/transform'' example_get_only) = Inr tf
         \<and> PrivateFuncPrefix tf = example_lower_word
         \<and> ExportedFuncPrefix tf = example_title_word)"
proof -
  have seed3: "namingSeed example_accent_path = example_upper_word"
    by (simp add: example_accent_path_def example_upper_word_def namingSeed_def lastSegment_def
        withoutBraces_def)
  have n1: "\<not> asciiOnly example_upper_word" by (simp add: asciiOnly_def example_upper_word_def)
  have n2: "\<not> asciiOnly example_lower_word" by (simp add: asciiOnly_def example_lower_word_def)
  have m1: "MapToLower example_tables example_upper_word = example_lower_word"
    by (simp add: example_tables_def)
  have m2: "MapTitle example_tables example_lower_word = example_title_word"
    by (simp add: example_tables_def)
  have ac: "\<exists>tf. fst (toTemplateFriendly example_tables example_accent_path
              ''/home/generated/resource/transform'' example_get_only) = Inr tf
         \<and> PrivateFuncPrefix tf = example_lower_word
         \<and> ExportedFuncPrefix tf = example_title_word"
    using naming_prefixes[OF example_accent_run] seed3 n1 n2 m1 m2
    by (simp add: example_accent_run)
  have seed: "namingSeed ''/sys/Mount_{NAME}'' = ''MountNAME''"
    by (simp add: namingSeed_def lastSegment_def withoutBraces_def)
  have a1: "asciiOnly ''MountNAME''" by (simp add: asciiOnly_def)
  have l: "map lowerCaseOf ''MountNAME'' = ''mountname''"
    by (simp add: lowerCaseOf_def char_of_def bit_Suc_0_iff)
  have a2: "asciiOnly ''mountname''" by (simp add: asciiOnly_def)
  have w: "list_all wordByte ''mountname''" by (simp add: wordByte_def)
  have c: "capitalized ''mountname'' = ''Mountname''"
    by (simp add: capitalized_def upperCaseOf_def char_of_def bit_Suc_0_iff)
  note t = naming_prefixes[OF example_upper_run]
  have p: "PrivateFuncPrefix \<lparr>Endpoint = ''/sys/Mount_{NAME}'', DirName = ''sys'',
        ExportedFuncPrefix = ''Mountname'', PrivateFuncPrefix = ''mountname'',
        TemplateParameters = [\<lparr>Name = ''name'', Description = ''the name'', In = ''path'',
                                 Schema = Some 0\<rparr>],
        SupportsRead = True, SupportsWrite = False, SupportsDelete = False\<rparr> =
      map lowerCaseOf (namingSeed ''/sys/Mount_{NAME}'')"
    using t a1 unfolding seed by blast
  have up: "\<exists>tf. fst (toTemplateFriendly example_unicode ''/sys/Mount_{NAME}''
              ''/repo/generated/resource/sys'' example_get_only) = Inr tf
         \<and> PrivateFuncPrefix tf = ''mountname'' \<and> ExportedFuncPrefix tf = ''Mountname''"
    using p by (simp add: example_upper_run)
  have lo: "\<exists>tf. fst (toTemplateFriendly example_unicode ''/transform/{name}''
              ''/home/generated/resource/transform'' example_get_only) = Inr tf
         \<and> ExportedFuncPrefix tf = ''Name'' \<and> PrivateFuncPrefix tf = ''name''"
    using naming_prefixes[OF example_get_only_run] by (simp add: example_get_only_run)
  show ?thesis using seed a1 l a2 w c up lo seed3 n1 n2 m1 m2 ac by (intro conjI)
qed

lemma appendPost_operations:
  "Get (pathItem (appendPostParamsToTopLevel s)) = Get (pathItem s)"
  "Post (pathItem (appendPostParamsToTopLevel s)) = Post (pathItem s)"
  "Delete (pathItem (appendPostParamsToTopLevel s)) = Delete (pathItem s)"
  by (simp_all add: appendPostParamsToTopLevel_def Let_def split: option.splits prod.splits)

text \<open>
  C9. The capability flags of the context are presence checks on the descriptor handed
  in: read for GET, write for POST, delete for DELETE.
\<close>

theorem capability_flags:
  assumes "fst (toTemplateFriendly u path parentDir s) = Inr tf"
  shows "SupportsRead tf = (Get (pathItem s) \<noteq> None)
    \<and> SupportsWrite tf = (Post (pathItem s) \<noteq> None)
    \<and> SupportsDelete tf = (Delete (pathItem s) \<noteq> None)"
  using assms
  by (auto simp: toTemplateFriendly_def Let_def appendPost_operations
      split: option.splits prod.splits)

theorem capability_flags_witness:
  "\<exists>tf. fst (toTemplateFriendly example_unicode ''/transform/{name}'' ''/home/generated/resource/transform''
            example_get_only) = Inr tf
     \<and> Get (pathItem example_get_only) \<noteq> None \<and> Post (pathItem example_get_only) = None
     \<and> Delete (pathItem example_get_only) = None
     \<and> SupportsRead tf \<and> \<not> SupportsWrite tf \<and> \<not> SupportsDelete tf"
proof -
  have ops: "Get (pathItem example_get_only) \<noteq> None" "Post (pathItem example_get_only) = None"
    "Delete (pathItem example_get_only) = None"
    by (simp_all add: example_get_only_def)
  show ?thesis
    using capability_flags[OF example_get_only_run] ops by (simp add: example_get_only_run)
qed

section \<open>Releasing the file\<close>

lemma parseTemplate_release:
  "parseTemplate (e\<lparr>Flush := fl, Close := cl\<rparr>) fileType parentDir vaultPath s =
   parseTemplate e fileType parentDir vaultPath s"
  by (simp add: parseTemplate_def split: option.splits prod.splits sum.splits)

lemma deferred_log:
  "deferredClose e (deferredFlush e p b s) =
      (deferredClose (quietRelease e) (deferredFlush (quietRelease e) p b s))
        \<lparr>logged := logged (deferredClose (quietRelease e) (deferredFlush (quietRelease e) p b s))
           @ releaseLog e b\<rparr>"
  by (cases "Flush e b"; cases "Close e"; cases "snd (Flush e b)")
     (auto simp: deferredClose_def deferredFlush_def quietRelease_def releaseLog_def)

lemma generateFile_opened:
  assumes "opens e pathToFile"
  shows "generateFile e pathToFile fileType vaultPath s =
     (case parseTemplate e fileType (take (nat (strings_LastIndex pathToFile CHR ''/'')) pathToFile)
             vaultPath (created pathToFile s) of
        (result, buffered, s3) \<Rightarrow>
          (result, deferredClose e (deferredFlush e pathToFile buffered s3)))"
  using assms by (simp add: generateFile_def opens_def created_def Let_def)

lemma generateFile_not_opened:
  assumes "\<not> opens e pathToFile"
  shows "generateFile e pathToFile fileType vaultPath s =
     (if strings_LastIndex pathToFile CHR ''/'' < 0 then (Inl PanicSliceBounds, s)
      else (case MkdirAll e (take (nat (strings_LastIndex pathToFile CHR ''/'')) pathToFile) of
              Some err \<Rightarrow> (Inl (ErrExternal err), s)
            | None \<Rightarrow>
                (Inl (ErrExternal (the (Create e pathToFile))),
                 s\<lparr>dirs := insert (take (nat (strings_LastIndex pathToFile CHR ''/'')) pathToFile)
                              (dirs s)\<rparr>)))"
proof (cases "strings_LastIndex pathToFile CHR ''/'' < 0")
  case True
  then show ?thesis by (simp add: generateFile_def)
next
  case idx: False
  show ?thesis
  proof (cases "MkdirAll e (take (nat (strings_LastIndex pathToFile CHR ''/'')) pathToFile)")
    case (Some err)
    then show ?thesis using idx by (simp add: generateFile_def Let_def)
  next
    case None
    then obtain err where "Create e pathToFile = Some err"
      using assms idx by (auto simp: opens_def)
    then show ?thesis using idx None by (simp add: generateFile_def Let_def)
  qed
qed

lemma opens_release: "opens (e\<lparr>Flush := fl, Close := cl\<rparr>) pathToFile = opens e pathToFile"
  by (simp add: opens_def)

lemma generateFile_release_result:
  "fst (generateFile (e\<lparr>Flush := fl, Close := cl\<rparr>) pathToFile fileType vaultPath s) =
   fst (generateFile e pathToFile fileType vaultPath s)"
proof (cases "opens e pathToFile")
  case True
  let ?d = "take (nat (strings_LastIndex pathToFile CHR ''/'')) pathToFile"
  obtain result buffered s3 where
    p: "parseTemplate e fileType ?d vaultPath (created pathToFile s) = (result, buffered, s3)"
    by (cases "parseTemplate e fileType ?d vaultPath (created pathToFile s)")
  have o1: "opens (e\<lparr>Flush := fl, Close := cl\<rparr>) pathToFile"
    using True by (simp add: opens_release)
  have "fst (generateFile (e\<lparr>Flush := fl, Close := cl\<rparr>) pathToFile fileType vaultPath s) = result"
    by (simp add: generateFile_opened[OF o1] parseTemplate_release p)
  moreover have "fst (generateFile e pathToFile fileType vaultPath s) = result"
    by (simp add: generateFile_opened[OF True] p)
  ultimately show ?thesis by simp
next
  case False
  have o1: "\<not> opens (e\<lparr>Flush := fl, Close := cl\<rparr>) pathToFile"
    using False by (simp add: opens_release)
  show ?thesis
    unfolding generateFile_not_opened[OF o1] generateFile_not_opened[OF False]
    by (simp split: option.splits)
qed

lemma generateFile_release_report:
  "snd (generateFile e pathToFile fileType vaultPath s) =
     (snd (generateFile (quietRelease e) pathToFile fileType vaultPath s))
       \<lparr>logged := logged (snd (generateFile (quietRelease e) pathToFile fileType vaultPath s))
          @ releaseReport e pathToFile fileType vaultPath s\<rparr>"
proof (cases "opens e pathToFile")
  case True
  let ?d = "take (nat (strings_LastIndex pathToFile CHR ''/'')) pathToFile"
  obtain result buffered s3 where
    p: "parseTemplate e fileType ?d vaultPath (created pathToFile s) = (result, buffered, s3)"
    by (cases "parseTemplate e fileType ?d vaultPath (created pathToFile s)")
  have o2: "opens (quietRelease e) pathToFile"
    using True by (simp add: quietRelease_def opens_release)
  have p2: "parseTemplate (quietRelease e) fileType ?d vaultPath (created pathToFile s) =
      (result, buffered, s3)"
    by (simp add: quietRelease_def parseTemplate_release p)
  have g1: "snd (generateFile e pathToFile fileType vaultPath s) =
      deferredClose e (deferredFlush e pathToFile buffered s3)"
    by (simp add: generateFile_opened[OF True] p)
  have g2: "snd (generateFile (quietRelease e) pathToFile fileType vaultPath s) =
      deferredClose (quietRelease e) (deferredFlush (quietRelease e) pathToFile buffered s3)"
    by (simp add: generateFile_opened[OF o2] p2)
  have r: "releaseReport e pathToFile fileType vaultPath s = releaseLog e buffered"
    using True by (simp add: releaseReport_def handedToWriter_def p)
  show ?thesis unfolding g1 g2 r by (rule deferred_log)
next
  case False
  have o2: "\<not> opens (quietRelease e) pathToFile"
    using False by (simp add: quietRelease_def opens_release)
  have "generateFile (quietRelease e) pathToFile fileType vaultPath s =
      generateFile e pathToFile fileType vaultPath s"
    unfolding generateFile_not_opened[OF o2] generateFile_not_opened[OF False]
    by (simp add: quietRelease_def split: option.splits)
  then show ?thesis using False by (simp add: releaseReport_def)
qed

lemma releaseReport_close:
  assumes "opens e pathToFile" "Close e = Some err"
  shows "releaseReport e pathToFile fileType vaultPath s \<noteq> []"
    and "last (releaseReport e pathToFile fileType vaultPath s) = LogError (ErrExternal err)"
  using assms by (simp_all add: releaseReport_def releaseLog_def)

lemma releaseReport_flush:
  assumes "opens e pathToFile" "handedToWriter e pathToFile fileType vaultPath s \<noteq> []"
    "snd (Flush e (handedToWriter e pathToFile fileType vaultPath s)) = Some err"
  shows "LogError (ErrExternal err) \<in> set (releaseReport e pathToFile fileType vaultPath s)"
  using assms by (simp add: releaseReport_def releaseLog_def)

text \<open>
  C10. Whatever the flush and the close report, \<open>generateFile\<close> returns the same result.
  Against the run where both report nothing, the final state differs by the report of the
  release appended to the log, and by nothing else: the error of the flush, when the
  writer held bytes and the flush failed, then the error of the close, when it failed.
  So a failing close is the last line of the log, and a failing flush is in the log.
\<close>

theorem release_failures_only_logged:
  "fst (generateFile (e\<lparr>Flush := fl, Close := cl\<rparr>) pathToFile fileType vaultPath s) =
     fst (generateFile e pathToFile fileType vaultPath s)
   \<and> snd (generateFile e pathToFile fileType vaultPath s) =
       (snd (generateFile (quietRelease e) pathToFile fileType vaultPath s))
         \<lparr>logged := logged (snd (generateFile (quietRelease e) pathToFile fileType vaultPath s))
            @ releaseReport e pathToFile fileType vaultPath s\<rparr>
   \<and> (opens e pathToFile \<and> Close e = Some cerr \<longrightarrow>
        last (logged (snd (generateFile e pathToFile fileType vaultPath s))) =
          LogError (ErrExternal cerr))
   \<and> (opens e pathToFile \<and> handedToWriter e pathToFile fileType vaultPath s \<noteq> []
        \<and> snd (Flush e (handedToWriter e pathToFile fileType vaultPath s)) = Some ferr \<longrightarrow>
        LogError (ErrExternal ferr) \<in>
          set (logged (snd (generateFile e pathToFile fileType vaultPath s))))"
proof -
  let ?q = "snd (generateFile (quietRelease e) pathToFile fileType vaultPath s)"
  let ?r = "releaseReport e pathToFile fileType vaultPath s"
  have 1: "fst (generateFile (e\<lparr>Flush := fl, Close := cl\<rparr>) pathToFile fileType vaultPath s) =
     fst (generateFile e pathToFile fileType vaultPath s)"
    by (rule generateFile_release_result)
  have 2: "snd (generateFile e pathToFile fileType vaultPath s) = ?q\<lparr>logged := logged ?q @ ?r\<rparr>"
    by (rule generateFile_release_report)
  have l: "logged (snd (generateFile e pathToFile fileType vaultPath s)) = logged ?q @ ?r"
    unfolding 2 by simp
  have 3: "last (logged (snd (generateFile e pathToFile fileType vaultPath s))) =
          LogError (ErrExternal cerr)" if "opens e pathToFile" "Close e = Some cerr"
    unfolding l using releaseReport_close[OF that] by simp
  have 4: "LogError (ErrExternal ferr) \<in>
          set (logged (snd (generateFile e pathToFile fileType vaultPath s)))"
    if "opens e pathToFile" "handedToWriter e pathToFile fileType vaultPath s \<noteq> []"
      "snd (Flush e (handedToWriter e pathToFile fileType vaultPath s)) = Some ferr"
    unfolding l using releaseReport_flush[OF that] by simp
  show ?thesis using 1 2 3 4 by blast
qed

lemma example_failing_opens:
  "opens example_failing_release ''/repo/generated/resource/transform/name.go''"
  by (simp add: opens_def example_failing_release_def example_env_def strings_LastIndex_def)

lemma example_failing_handed:
  "handedToWriter example_failing_release ''/repo/generated/resource/transform/name.go''
     FileTypeResource ''/transform/{name}'' example_get_only = ''generated''"
  by code_simp

lemma example_failing_log:
  "logged (snd (generateFile example_failing_release ''/repo/generated/resource/transform/name.go''
     FileTypeResource ''/transform/{name}'' example_get_only)) =
   [LogError (ErrExternal ''disk full''), LogError (ErrExternal ''bad file descriptor'')]"
  by code_simp

lemma example_failing_file:
  "files (snd (generateFile example_failing_release ''/repo/generated/resource/transform/name.go''
     FileTypeResource ''/transform/{name}'' example_get_only))
     ''/repo/generated/resource/transform/name.go'' = Some ''gen''"
  by code_simp

lemma example_quiet_result:
  "fst (generateFile example_env ''/repo/generated/resource/transform/name.go''
     FileTypeResource ''/transform/{name}'' example_get_only) = Inr ()"
  by code_simp

text \<open>
  C10 on a run where the flush and the close both fail: the result is that of the run
  where neither fails, success, and the log holds the two errors.
\<close>

theorem release_failures_only_logged_witness:
  "opens example_failing_release ''/repo/generated/resource/transform/name.go''
   \<and> Close example_failing_release = Some ''bad file descriptor''
   \<and> handedToWriter example_failing_release ''/repo/generated/resource/transform/name.go''
        FileTypeResource ''/transform/{name}'' example_get_only = ''generated''
   \<and> Flush example_failing_release ''generated'' = (''gen'', Some ''disk full'')
   \<and> fst (generateFile example_env ''/repo/generated/resource/transform/name.go''
        FileTypeResource ''/transform/{name}'' example_get_only) = Inr ()
   \<and> fst (generateFile example_failing_release ''/repo/generated/resource/transform/name.go''
        FileTypeResource ''/transform/{name}'' example_get_only) = Inr ()
   \<and> last (logged (snd (generateFile example_failing_release
        ''/repo/generated/resource/transform/name.go'' FileTypeResource ''/transform/{name}''
        example_get_only))) = LogError (ErrExternal ''bad file descriptor'')
   \<and> LogError (ErrExternal ''disk full'') \<in> set (logged (snd (generateFile
        example_failing_release ''/repo/generated/resource/transform/name.go'' FileTypeResource
        ''/transform/{name}'' example_get_only)))
   \<and> logged (snd (generateFile example_failing_release
        ''/repo/generated/resource/transform/name.go'' FileTypeResource ''/transform/{name}''
        example_get_only)) =
       [LogError (ErrExternal ''disk full''), LogError (ErrExternal ''bad file descriptor'')]
   \<and> files (snd (generateFile example_failing_release
        ''/repo/generated/resource/transform/name.go'' FileTypeResource ''/transform/{name}''
        example_get_only)) ''/repo/generated/resource/transform/name.go'' = Some ''gen''"
proof -
  let ?p = "''/repo/generated/resource/transform/name.go''"
  let ?g = "generateFile example_failing_release ?p FileTypeResource ''/transform/{name}''
      example_get_only"
  note t = release_failures_only_logged[where e = example_failing_release
      and fl = "Flush example_env" and cl = "Close example_env" and pathToFile = ?p
      and fileType = FileTypeResource and vaultPath = "''/transform/{name}''"
      and s = example_get_only and cerr = "''bad file descriptor''" and ferr = "''disk full''"]
  have env: "example_failing_release\<lparr>Flush := Flush example_env, Close := Close example_env\<rparr> =
      example_env"
    by (simp add: example_failing_release_def)
  have c: "Close example_failing_release = Some ''bad file descriptor''"
    by (simp add: example_failing_release_def)
  have f: "Flush example_failing_release ''generated'' = (''gen'', Some ''disk full'')"
    by (simp add: example_failing_release_def)
  have h: "handedToWriter example_failing_release ?p FileTypeResource ''/transform/{name}''
      example_get_only = ''generated''"
    by (rule example_failing_handed)
  have r: "fst ?g = Inr ()"
    using t example_quiet_result unfolding env by simp
  have l: "last (logged (snd ?g)) = LogError (ErrExternal ''bad file descriptor'')"
    using t example_failing_opens c by blast
  have "snd (Flush example_failing_release (handedToWriter example_failing_release ?p
      FileTypeResource ''/transform/{name}'' example_get_only)) = Some ''disk full''"
    unfolding h f by simp
  moreover have "handedToWriter example_failing_release ?p FileTypeResource ''/transform/{name}''
      example_get_only \<noteq> []"
    unfolding h by simp
  ultimately have m: "LogError (ErrExternal ''disk full'') \<in> set (logged (snd ?g))"
    using t example_failing_opens by blast
  show ?thesis
    using example_failing_opens c h f example_quiet_result r l m example_failing_log
      example_failing_file
    by (intro conjI)
qed

section \<open>The store and the loops of the extraction\<close>

lemma length_populateDisplayAttrs [simp]: "length (populateDisplayAttrs r h) = length h"
  by (simp add: populateDisplayAttrs_def)

lemma populateDisplayAttrs_nth:
  "populateDisplayAttrs r h ! i =
     (if i = r \<and> r < length h \<and> DisplayAttrs (h ! r) = None
      then (h ! r)\<lparr>DisplayAttrs := Some zeroDisplayAttributes\<rparr> else h ! i)"
  by (cases "r < length h") (auto simp: populateDisplayAttrs_def list_update_beyond)

lemma normalizes_refl: "normalizes a a"
  by (simp add: normalizes_def)

lemma normalizes_trans: "normalizes a b \<Longrightarrow> normalizes b c \<Longrightarrow> normalizes a c"
  by (auto simp: normalizes_def)

lemma grows_nth:
  "grows h h' \<longleftrightarrow> length h \<le> length h' \<and> (\<forall>i<length h. normalizes (h ! i) (h' ! i))"
  by (auto simp: grows_def list_all2_conv_all_nth)

lemma grows_refl: "grows h h"
  by (simp add: grows_nth normalizes_refl)

lemma grows_trans: "grows a b \<Longrightarrow> grows b c \<Longrightarrow> grows a c"
  unfolding grows_nth by (meson normalizes_trans le_trans less_le_trans)

lemma grows_populateDisplayAttrs: "grows h (populateDisplayAttrs r h)"
  by (simp add: grows_nth populateDisplayAttrs_nth normalizes_def)

lemma grows_append: "grows h (h @ xs)"
  by (simp add: grows_nth nth_append normalizes_refl)

lemma grows_populated: "grows h h' \<Longrightarrow> populated h p \<Longrightarrow> populated h' p"
  by (auto simp: grows_nth populated_def normalizes_def split: option.splits)

lemma validRef_mono: "validRef h x \<Longrightarrow> length h \<le> length h' \<Longrightarrow> validRef h' x"
  by (auto simp: validRef_def split: option.splits)

lemma validSchema_mono: "validSchema h obj \<Longrightarrow> length h \<le> length h' \<Longrightarrow> validSchema h' obj"
  by (auto simp: validSchema_def list_all_iff split: option.splits intro: validRef_mono)

lemma validStore_grows:
  assumes "validStore h" "grows h h'" "\<forall>i<length h'. length h \<le> i \<longrightarrow> Properties (h' ! i) = None"
  shows "validStore h'"
  unfolding validStore_def list_all_length
proof (intro allI impI)
  fix i assume i: "i < length h'"
  show "validSchema h' (h' ! i)"
  proof (cases "i < length h")
    case True
    then have "validSchema h (h ! i)" using assms(1) by (simp add: validStore_def list_all_length)
    moreover have "Properties (h' ! i) = Properties (h ! i)"
      using assms(2) True by (simp add: grows_nth normalizes_def)
    moreover have "length h \<le> length h'" using assms(2) by (simp add: grows_nth)
    ultimately show ?thesis using validSchema_mono[of h "h ! i" h']
      by (simp add: validSchema_def)
  next
    case False
    then show ?thesis using assms(3) i by (simp add: validSchema_def)
  qed
qed

lemma validStore_populateDisplayAttrs: "validStore h \<Longrightarrow> validStore (populateDisplayAttrs r h)"
  by (rule validStore_grows[OF _ grows_populateDisplayAttrs]) simp_all

lemma validStore_alloc: "validStore h \<Longrightarrow> validStore (h @ [zeroSchema])"
  by (rule validStore_grows[OF _ grows_append]) (auto simp: nth_append zeroSchema_def)

lemma populateDisplayAttrs_populated:
  "r < length h \<Longrightarrow> DisplayAttrs (populateDisplayAttrs r h ! r) \<noteq> None"
  by (simp add: populateDisplayAttrs_nth)

lemma populateDisplayAttrs_idle: "DisplayAttrs (h ! r) \<noteq> None \<Longrightarrow> populateDisplayAttrs r h = h"
  by (auto simp: populateDisplayAttrs_def)

lemma populateDisplayAttrs_commute:
  "populateDisplayAttrs a (populateDisplayAttrs b h) = populateDisplayAttrs b (populateDisplayAttrs a h)"
  by (cases "a = b") (auto simp: populateDisplayAttrs_def list_update_swap)

subsection \<open>The first loop\<close>

lemma seenTopLevel_step: "seenTopLevel p (h, u) = (populateParam p h, u(Name p := True))"
  by (simp add: seenTopLevel_def populateParam_def)

lemma fold_seenTopLevel:
  "fold seenTopLevel ps (h, u) = (fold populateParam ps h, \<lambda>n. u n \<or> n \<in> Name ` set ps)"
proof (induction ps arbitrary: h u)
  case Nil
  then show ?case by simp
next
  case (Cons p ps)
  have e: "(\<lambda>n. (u(Name p := True)) n \<or> n \<in> Name ` set ps) = (\<lambda>n. u n \<or> n \<in> Name ` set (p # ps))"
    by auto
  have f: "fold populateParam ps (populateParam p h) = fold populateParam (p # ps) h"
    by simp
  have "fold seenTopLevel (p # ps) (h, u) = fold seenTopLevel ps (seenTopLevel p (h, u))"
    by simp
  also have "\<dots> = fold seenTopLevel ps (populateParam p h, u(Name p := True))"
    by (simp only: seenTopLevel_step)
  also have "\<dots> = (fold populateParam ps (populateParam p h),
      \<lambda>n. (u(Name p := True)) n \<or> n \<in> Name ` set ps)"
    by (rule Cons)
  finally show ?case by (simp only: e f)
qed

lemma length_populateParam [simp]: "length (populateParam p h) = length h"
  by (simp add: populateParam_def split: option.splits)

lemma grows_populateParam: "grows h (populateParam p h)"
  by (simp add: populateParam_def grows_refl grows_populateDisplayAttrs split: option.splits)

lemma validStore_populateParam: "validStore h \<Longrightarrow> validStore (populateParam p h)"
  by (simp add: populateParam_def validStore_populateDisplayAttrs split: option.splits)

lemma length_fold_populateParam [simp]: "length (fold populateParam ps h) = length h"
  by (induction ps arbitrary: h) simp_all

lemma grows_fold_populateParam: "grows h (fold populateParam ps h)"
proof (induction ps arbitrary: h)
  case Nil
  then show ?case by (simp add: grows_refl)
next
  case (Cons p ps)
  show ?case using grows_trans[OF grows_populateParam Cons] by simp
qed

lemma validStore_fold_populateParam: "validStore h \<Longrightarrow> validStore (fold populateParam ps h)"
  by (induction ps arbitrary: h) (simp_all add: validStore_populateParam)

lemma fold_populateParam_populated:
  assumes "p \<in> set ps" "validRef h (Schema p)" "Schema p \<noteq> None"
  shows "populated (fold populateParam ps h) p"
  using assms
proof (induction ps arbitrary: h)
  case Nil
  then show ?case by simp
next
  case (Cons q ps)
  show ?case
  proof (cases "p = q")
    case True
    with Cons.prems obtain r where r: "Schema q = Some r" "r < length h"
      by (auto simp: validRef_def)
    then have "populated (populateParam q h) q"
      by (simp add: populated_def populateParam_def populateDisplayAttrs_populated)
    then show ?thesis
      using grows_populated[OF grows_fold_populateParam] True by simp
  next
    case False
    then have "p \<in> set ps" using Cons.prems by simp
    moreover have "validRef (populateParam q h) (Schema p)"
      using Cons.prems(2) by (rule validRef_mono) simp
    ultimately show ?thesis using Cons.IH Cons.prems(3) by simp
  qed
qed

lemma fold_populateParam_idle:
  "(\<forall>p\<in>set ps. \<forall>r. Schema p = Some r \<longrightarrow> DisplayAttrs (h ! r) \<noteq> None) \<Longrightarrow>
     fold populateParam ps h = h"
  by (induction ps) (auto simp: populateParam_def populateDisplayAttrs_idle split: option.splits)

lemma populateParam_commute:
  "populateParam p (populateParam q h) = populateParam q (populateParam p h)"
  by (simp add: populateParam_def populateDisplayAttrs_commute split: option.splits)

lemma fold_populateParam_mset:
  "mset ps = mset ps' \<Longrightarrow> fold populateParam ps h = fold populateParam ps' h"
proof -
  assume "mset ps = mset ps'"
  then have "fold populateParam ps = fold populateParam ps'"
    by (rule fold_multiset_equiv[rotated]) (auto simp: populateParam_commute)
  then show ?thesis by simp
qed


subsection \<open>The second loop\<close>

lemma addProperty_step:
  "addProperty (n, x) (h, ps, u) =
     (if u n then (h, ps, u) else (propertyStore h x, ps @ [propertyParam h n x], u(n := True)))"
  by (cases x)
    (simp_all add: addProperty_def propertyStore_def propertyParam_def propertyRef_def Let_def)

lemma grows_propertyStore: "grows h (propertyStore h x)"
  unfolding propertyStore_def
  by (cases x) (auto intro: grows_trans[OF grows_append grows_populateDisplayAttrs]
      grows_populateDisplayAttrs)

lemma validStore_propertyStore: "validStore h \<Longrightarrow> validStore (propertyStore h x)"
  unfolding propertyStore_def
  by (cases x) (auto intro: validStore_populateDisplayAttrs validStore_alloc)

lemma populated_propertyParam:
  "validRef h x \<Longrightarrow> populated (propertyStore h x) (propertyParam h n x)"
  by (cases x)
    (auto simp: populated_def propertyParam_def propertyStore_def propertyRef_def validRef_def
      populateDisplayAttrs_nth)

lemma propertyParam_sel [simp]:
  "Name (propertyParam h n x) = n" "In (propertyParam h n x) = ''post''"
  by (simp_all add: propertyParam_def)

lemma grows_length: "grows h h' \<Longrightarrow> length h \<le> length h'"
  by (simp add: grows_nth)

lemma fold_addProperty:
  assumes "validStore h" "\<forall>x\<in>set props. validRef h (snd x)"
  shows "\<exists>h' added. fold addProperty props (h, ps, u) =
            (h', ps @ added, \<lambda>n. u n \<or> n \<in> fst ` set props)
          \<and> grows h h' \<and> validStore h' \<and> distinct (map Name added)
          \<and> Name ` set added = {n \<in> fst ` set props. \<not> u n}
          \<and> (\<forall>q\<in>set added. In q = ''post'' \<and> populated h' q)"
  using assms
proof (induction props arbitrary: h ps u)
  case Nil
  then show ?case by (auto simp: grows_refl)
next
  case (Cons a props)
  obtain n x where a: "a = (n, x)" by (cases a)
  show ?case
  proof (cases "u n")
    case True
    have valid: "\<forall>x\<in>set props. validRef h (snd x)" using Cons.prems(2) by simp
    obtain h' added where
      run: "fold addProperty props (h, ps, u) = (h', ps @ added, \<lambda>m. u m \<or> m \<in> fst ` set props)"
      and rest: "grows h h'" "validStore h'" "distinct (map Name added)"
      "Name ` set added = {m \<in> fst ` set props. \<not> u m}"
      "\<forall>q\<in>set added. In q = ''post'' \<and> populated h' q"
      using Cons.IH[OF Cons.prems(1) valid, of ps u] by (elim exE conjE)
    have u: "(\<lambda>m. u m \<or> m \<in> fst ` set props) = (\<lambda>m. u m \<or> m \<in> fst ` set (a # props))"
      using True a by auto
    have names: "{m \<in> fst ` set props. \<not> u m} = {m \<in> fst ` set (a # props). \<not> u m}"
      using True a by auto
    have "fold addProperty (a # props) (h, ps, u) =
        (h', ps @ added, \<lambda>m. u m \<or> m \<in> fst ` set (a # props))"
      using run True by (simp add: a addProperty_step u[unfolded a])
    then show ?thesis
      using rest unfolding names by (intro exI[of _ h'] exI[of _ added] conjI)
  next
    case False
    let ?h1 = "propertyStore h x"
    let ?q = "propertyParam h n x"
    let ?u1 = "u(n := True)"
    have g1: "grows h ?h1" by (rule grows_propertyStore)
    have v1: "validStore ?h1" using Cons.prems(1) by (rule validStore_propertyStore)
    have valid: "\<forall>x\<in>set props. validRef ?h1 (snd x)"
      using Cons.prems(2) validRef_mono[OF _ grows_length[OF g1]] by simp
    obtain h' added where
      run: "fold addProperty props (?h1, ps @ [?q], ?u1) =
          (h', (ps @ [?q]) @ added, \<lambda>m. ?u1 m \<or> m \<in> fst ` set props)"
      and rest: "grows ?h1 h'" "validStore h'" "distinct (map Name added)"
      "Name ` set added = {m \<in> fst ` set props. \<not> ?u1 m}"
      "\<forall>q\<in>set added. In q = ''post'' \<and> populated h' q"
      using Cons.IH[OF v1 valid, of "ps @ [?q]" ?u1] by (elim exE conjE)
    have u: "(\<lambda>m. ?u1 m \<or> m \<in> fst ` set props) = (\<lambda>m. u m \<or> m \<in> fst ` set (a # props))"
      using a by auto
    have "fold addProperty (a # props) (h, ps, u) =
        (h', ps @ (?q # added), \<lambda>m. ?u1 m \<or> m \<in> fst ` set props)"
      using run False by (simp add: a addProperty_step)
    then have r1: "fold addProperty (a # props) (h, ps, u) =
        (h', ps @ (?q # added), \<lambda>m. u m \<or> m \<in> fst ` set (a # props))"
      by (simp only: u)
    have "validRef h x" using Cons.prems(2) a by simp
    then have "populated h' ?q"
      using grows_populated[OF rest(1)] populated_propertyParam by blast
    then have r5: "\<forall>q\<in>set (?q # added). In q = ''post'' \<and> populated h' q"
      using rest(5) by simp
    have "n \<notin> Name ` set added" using rest(4) by simp
    then have r3: "distinct (map Name (?q # added))" using rest(3) by simp
    have r4: "Name ` set (?q # added) = {m \<in> fst ` set (a # props). \<not> u m}"
      using rest(4) False a by auto
    have r2: "grows h h'" using g1 rest(1) by (rule grows_trans)
    show ?thesis
      using r1 r2 rest(2) r3 r4 r5 by (intro exI[of _ h'] exI[of _ "?q # added"] conjI)
  qed
qed


lemma addMediaType_step:
  "addMediaType (k, m) (h, ps, u) = fold addProperty (mediaProperties h m) (h, ps, u)"
  by (simp add: addMediaType_def mediaProperties_def split: option.splits)

lemma propertyNames_Cons:
  "propertyNames h ((k, m) # content) = map fst (mediaProperties h m) @ propertyNames h content"
  by (simp add: propertyNames_def mediaProperties_def split: option.splits)

lemma propertyNames_Nil: "propertyNames h [] = []"
  by (simp add: propertyNames_def)

lemma mediaProperties_valid:
  assumes "validStore h" "validRef h (MediaTypeSchema m)"
  shows "\<forall>x\<in>set (mediaProperties h m). validRef h (snd x)"
proof (cases "MediaTypeSchema m")
  case None
  then show ?thesis by (simp add: mediaProperties_def)
next
  case (Some r)
  then have "r < length h" using assms(2) by (simp add: validRef_def)
  then have "validSchema h (h ! r)" using assms(1) by (simp add: validStore_def list_all_length)
  then show ?thesis
    using Some by (auto simp: mediaProperties_def validSchema_def list_all_iff split: option.splits)
qed

lemma mediaProperties_grows:
  assumes "grows h h'" "validRef h (MediaTypeSchema m)"
  shows "mediaProperties h' m = mediaProperties h m"
proof (cases "MediaTypeSchema m")
  case None
  then show ?thesis by (simp add: mediaProperties_def)
next
  case (Some r)
  then have "r < length h" using assms(2) by (simp add: validRef_def)
  then have "Properties (h' ! r) = Properties (h ! r)"
    using assms(1) by (simp add: grows_nth normalizes_def)
  then show ?thesis using Some by (simp add: mediaProperties_def)
qed

lemma propertyNames_grows:
  assumes "grows h h'" "\<forall>m\<in>set content. validRef h (MediaTypeSchema (snd m))"
  shows "propertyNames h' content = propertyNames h content"
  using assms(2)
proof (induction content)
  case Nil
  then show ?case by (simp add: propertyNames_Nil)
next
  case (Cons a content)
  obtain k m where a: "a = (k, m)" by (cases a)
  have "mediaProperties h' m = mediaProperties h m"
    using mediaProperties_grows[OF assms(1)] Cons.prems a by simp
  then show ?case using Cons by (simp add: a propertyNames_Cons)
qed

lemma fold_addMediaType:
  assumes "validStore h" "\<forall>m\<in>set content. validRef h (MediaTypeSchema (snd m))"
  shows "\<exists>h' added. fold addMediaType content (h, ps, u) =
            (h', ps @ added, \<lambda>n. u n \<or> n \<in> set (propertyNames h content))
          \<and> grows h h' \<and> validStore h' \<and> distinct (map Name added)
          \<and> Name ` set added = {n \<in> set (propertyNames h content). \<not> u n}
          \<and> (\<forall>q\<in>set added. In q = ''post'' \<and> populated h' q)"
  using assms
proof (induction content arbitrary: h ps u)
  case Nil
  then show ?case by (auto simp: grows_refl propertyNames_Nil)
next
  case (Cons a content)
  obtain k m where a: "a = (k, m)" by (cases a)
  let ?props = "mediaProperties h m"
  let ?u1 = "\<lambda>n. u n \<or> n \<in> fst ` set ?props"
  have vm: "validRef h (MediaTypeSchema m)" using Cons.prems(2) a by simp
  obtain h1 a1 where
    run1: "fold addProperty ?props (h, ps, u) = (h1, ps @ a1, ?u1)"
    and rest1: "grows h h1" "validStore h1" "distinct (map Name a1)"
    "Name ` set a1 = {n \<in> fst ` set ?props. \<not> u n}"
    "\<forall>q\<in>set a1. In q = ''post'' \<and> populated h1 q"
    using fold_addProperty[OF Cons.prems(1) mediaProperties_valid[OF Cons.prems(1) vm], of ps u]
    by (elim exE conjE)
  have valid0: "\<forall>m\<in>set content. validRef h (MediaTypeSchema (snd m))"
    using Cons.prems(2) by simp
  have valid1: "\<forall>m\<in>set content. validRef h1 (MediaTypeSchema (snd m))"
    using valid0 validRef_mono[OF _ grows_length[OF rest1(1)]] by blast
  have pn: "propertyNames h1 content = propertyNames h content"
    using propertyNames_grows[OF rest1(1) valid0] .
  obtain h2 a2 where
    run2: "fold addMediaType content (h1, ps @ a1, ?u1) =
        (h2, (ps @ a1) @ a2, \<lambda>n. ?u1 n \<or> n \<in> set (propertyNames h1 content))"
    and rest2: "grows h1 h2" "validStore h2" "distinct (map Name a2)"
    "Name ` set a2 = {n \<in> set (propertyNames h1 content). \<not> ?u1 n}"
    "\<forall>q\<in>set a2. In q = ''post'' \<and> populated h2 q"
    using Cons.IH[OF rest1(2) valid1, of "ps @ a1" ?u1] by (elim exE conjE)
  have u: "(\<lambda>n. ?u1 n \<or> n \<in> set (propertyNames h1 content)) =
      (\<lambda>n. u n \<or> n \<in> set (propertyNames h (a # content)))"
    by (auto simp: a propertyNames_Cons pn)
  have "fold addMediaType (a # content) (h, ps, u) =
      (h2, ps @ (a1 @ a2), \<lambda>n. ?u1 n \<or> n \<in> set (propertyNames h1 content))"
    using run1 run2 by (simp add: a addMediaType_step)
  then have r1: "fold addMediaType (a # content) (h, ps, u) =
      (h2, ps @ (a1 @ a2), \<lambda>n. u n \<or> n \<in> set (propertyNames h (a # content)))"
    by (simp only: u)
  have r2: "grows h h2" using rest1(1) rest2(1) by (rule grows_trans)
  have "Name ` set a1 \<inter> Name ` set a2 = {}" using rest1(4) rest2(4) by auto
  then have r3: "distinct (map Name (a1 @ a2))" using rest1(3) rest2(3) by simp
  have "Name ` set (a1 @ a2) =
      {n \<in> fst ` set ?props. \<not> u n} \<union> {n \<in> set (propertyNames h1 content). \<not> ?u1 n}"
    using rest1(4) rest2(4) by (simp add: image_Un)
  also have "\<dots> = {n \<in> set (propertyNames h (a # content)). \<not> u n}"
    by (auto simp: a propertyNames_Cons pn)
  finally have r4: "Name ` set (a1 @ a2) = {n \<in> set (propertyNames h (a # content)). \<not> u n}" .
  have r5: "\<forall>q\<in>set (a1 @ a2). In q = ''post'' \<and> populated h2 q"
    using rest1(5) rest2(5) grows_populated[OF rest2(1)] by auto
  show ?case
    using r1 r2 rest2(2) r3 r4 r5 by (intro exI[of _ h2] exI[of _ "a1 @ a2"] conjI)
qed

lemma fold_addProperty_prefix:
  "fold addProperty props (h, ps @ qs, u) =
     (case fold addProperty props (h, qs, u) of (h', qs', u') \<Rightarrow> (h', ps @ qs', u'))"
proof (induction props arbitrary: h qs u)
  case Nil
  then show ?case by simp
next
  case (Cons a props)
  obtain n x where a: "a = (n, x)" by (cases a)
  show ?case
  proof (cases "u n")
    case True
    then show ?thesis using Cons[of h qs u] by (simp add: a addProperty_step)
  next
    case False
    let ?q = "propertyParam h n x"
    have l: "fold addProperty (a # props) (h, ps @ qs, u) =
        fold addProperty props (propertyStore h x, ps @ (qs @ [?q]), u(n := True))"
      using False by (simp add: a addProperty_step)
    have r: "fold addProperty (a # props) (h, qs, u) =
        fold addProperty props (propertyStore h x, qs @ [?q], u(n := True))"
      using False by (simp add: a addProperty_step)
    show ?thesis unfolding l r by (rule Cons)
  qed
qed

lemma fold_addMediaType_prefix:
  "fold addMediaType content (h, ps @ qs, u) =
     (case fold addMediaType content (h, qs, u) of (h', qs', u') \<Rightarrow> (h', ps @ qs', u'))"
proof (induction content arbitrary: h qs u)
  case Nil
  then show ?case by simp
next
  case (Cons a content)
  obtain k m where a: "a = (k, m)" by (cases a)
  obtain h1 q1 u1 where r: "fold addProperty (mediaProperties h m) (h, qs, u) = (h1, q1, u1)"
    by (cases "fold addProperty (mediaProperties h m) (h, qs, u)")
  show ?case
    using Cons[of h1 q1 u1] by (simp add: a addMediaType_step fold_addProperty_prefix r)
qed


lemma fold_addProperty_idle:
  "\<forall>x\<in>set props. u (fst x) \<Longrightarrow> fold addProperty props (h, ps, u) = (h, ps, u)"
proof (induction props)
  case Nil
  then show ?case by simp
next
  case (Cons a props)
  obtain n x where a: "a = (n, x)" by (cases a)
  show ?case using Cons by (simp add: a addProperty_step)
qed

lemma fold_addMediaType_idle:
  "\<forall>n\<in>set (propertyNames h content). u n \<Longrightarrow>
     fold addMediaType content (h, ps, u) = (h, ps, u)"
proof (induction content)
  case Nil
  then show ?case by simp
next
  case (Cons a content)
  obtain k m where a: "a = (k, m)" by (cases a)
  have "\<forall>x\<in>set (mediaProperties h m). u (fst x)"
    using Cons.prems by (simp add: a propertyNames_Cons)
  then have "fold addProperty (mediaProperties h m) (h, ps, u) = (h, ps, u)"
    by (rule fold_addProperty_idle)
  moreover have "\<forall>n\<in>set (propertyNames h content). u n"
    using Cons.prems by (simp add: a propertyNames_Cons)
  ultimately show ?case using Cons.IH by (simp add: a addMediaType_step)
qed

subsection \<open>The extraction as a whole\<close>

lemma appendPost_absent:
  "postContent (pathItem s) = None \<Longrightarrow> appendPostParamsToTopLevel s = s"
  by (simp add: appendPostParamsToTopLevel_def postContent_def split: option.splits)

lemma appendPost_present:
  assumes "postContent (pathItem s) = Some content"
  shows "appendPostParamsToTopLevel s =
     (case fold addMediaType content
             (fold populateParam (Parameters (pathItem s)) (schemas s), Parameters (pathItem s),
              \<lambda>n. n \<in> Name ` set (Parameters (pathItem s))) of
        (h2, params, unique2) \<Rightarrow> s\<lparr>schemas := h2, pathItem := (pathItem s)\<lparr>Parameters := params\<rparr>\<rparr>)"
proof -
  obtain post body where "Post (pathItem s) = Some post" "RequestBody post = Some body"
    "Content body = Some content"
    using assms by (auto simp: postContent_def split: option.splits)
  then show ?thesis
    by (simp add: appendPostParamsToTopLevel_def fold_seenTopLevel)
qed

lemma appendPost_summary:
  assumes "validState s" "postContent (pathItem s) = Some content"
  shows "\<exists>h' added.
     appendPostParamsToTopLevel s =
       s\<lparr>schemas := h', pathItem := (pathItem s)\<lparr>Parameters := Parameters (pathItem s) @ added\<rparr>\<rparr>
     \<and> grows (schemas s) h' \<and> validStore h' \<and> distinct (map Name added)
     \<and> Name ` set added = set (bodyPropertyNames s) - Name ` set (Parameters (pathItem s))
     \<and> (\<forall>q\<in>set added. In q = ''post'' \<and> populated h' q)
     \<and> (\<forall>p\<in>set (Parameters (pathItem s)). Schema p \<noteq> None \<longrightarrow> populated h' p)"
proof -
  let ?ps = "Parameters (pathItem s)"
  let ?h1 = "fold populateParam ?ps (schemas s)"
  let ?u = "\<lambda>n. n \<in> Name ` set ?ps"
  have vs: "validStore (schemas s)"
    and vp: "\<forall>p\<in>set ?ps. validRef (schemas s) (Schema p)"
    and vm: "\<forall>m\<in>set content. validRef (schemas s) (MediaTypeSchema (snd m))"
    using assms by (simp_all add: validState_def list_all_iff)
  have g1: "grows (schemas s) ?h1" by (rule grows_fold_populateParam)
  have v1: "validStore ?h1" using vs by (rule validStore_fold_populateParam)
  have vm1: "\<forall>m\<in>set content. validRef ?h1 (MediaTypeSchema (snd m))"
    using vm by (simp add: validRef_def split: option.splits)
  obtain h' added where
    run: "fold addMediaType content (?h1, ?ps, ?u) =
        (h', ?ps @ added, \<lambda>n. ?u n \<or> n \<in> set (propertyNames ?h1 content))"
    and rest: "grows ?h1 h'" "validStore h'" "distinct (map Name added)"
    "Name ` set added = {n \<in> set (propertyNames ?h1 content). \<not> ?u n}"
    "\<forall>q\<in>set added. In q = ''post'' \<and> populated h' q"
    using fold_addMediaType[OF v1 vm1, of ?ps ?u] by (elim exE conjE)
  have pn: "propertyNames ?h1 content = bodyPropertyNames s"
    using propertyNames_grows[OF g1 vm] assms(2) by (simp add: bodyPropertyNames_def)
  have r1: "appendPostParamsToTopLevel s =
       s\<lparr>schemas := h', pathItem := (pathItem s)\<lparr>Parameters := ?ps @ added\<rparr>\<rparr>"
    by (simp add: appendPost_present[OF assms(2)] run)
  have r2: "grows (schemas s) h'" using g1 rest(1) by (rule grows_trans)
  have r4: "Name ` set added = set (bodyPropertyNames s) - Name ` set ?ps"
    using rest(4) unfolding pn by auto
  have r6: "\<forall>p\<in>set ?ps. Schema p \<noteq> None \<longrightarrow> populated h' p"
    using fold_populateParam_populated[of _ ?ps "schemas s"] vp grows_populated[OF rest(1)]
    by blast
  show ?thesis
    using r1 r2 rest(2) rest(3) r4 rest(5) r6 by (intro exI[of _ h'] exI[of _ added] conjI)
qed

lemma appendPost_twice:
  assumes "validState s"
  shows "appendPostParamsToTopLevel (appendPostParamsToTopLevel s) = appendPostParamsToTopLevel s"
proof (cases "postContent (pathItem s)")
  case None
  then show ?thesis by (simp add: appendPost_absent)
next
  case (Some content)
  let ?ps = "Parameters (pathItem s)"
  obtain h' added where
    run: "appendPostParamsToTopLevel s =
       s\<lparr>schemas := h', pathItem := (pathItem s)\<lparr>Parameters := ?ps @ added\<rparr>\<rparr>"
    and rest: "grows (schemas s) h'" "validStore h'" "distinct (map Name added)"
    "Name ` set added = set (bodyPropertyNames s) - Name ` set ?ps"
    "\<forall>q\<in>set added. In q = ''post'' \<and> populated h' q"
    "\<forall>p\<in>set ?ps. Schema p \<noteq> None \<longrightarrow> populated h' p"
    using appendPost_summary[OF assms Some] by (elim exE conjE)
  let ?s1 = "s\<lparr>schemas := h', pathItem := (pathItem s)\<lparr>Parameters := ?ps @ added\<rparr>\<rparr>"
  let ?u = "\<lambda>n. n \<in> Name ` set (?ps @ added)"
  have c1: "postContent (pathItem ?s1) = Some content"
    using Some by (simp add: postContent_def)
  have "\<forall>p\<in>set (?ps @ added). \<forall>r. Schema p = Some r \<longrightarrow> DisplayAttrs (h' ! r) \<noteq> None"
    using rest(5) rest(6) by (auto simp: populated_def split: option.splits)
  then have idle1: "fold populateParam (?ps @ added) h' = h'"
    by (rule fold_populateParam_idle)
  have vm: "\<forall>m\<in>set content. validRef (schemas s) (MediaTypeSchema (snd m))"
    using assms Some by (simp add: validState_def list_all_iff)
  have "propertyNames h' content = bodyPropertyNames s"
    using propertyNames_grows[OF rest(1) vm] Some by (simp add: bodyPropertyNames_def)
  then have "\<forall>n\<in>set (propertyNames h' content). ?u n"
    using rest(4) by auto
  then have idle2: "fold addMediaType content (h', ?ps @ added, ?u) = (h', ?ps @ added, ?u)"
    by (rule fold_addMediaType_idle)
  have "appendPostParamsToTopLevel ?s1 = ?s1"
    using idle1 idle2 by (simp add: appendPost_present[OF c1])
  then show ?thesis by (simp add: run)
qed

section \<open>Extraction: idempotence, precedence, normalisation\<close>

lemmas extraction_defs = appendPostParamsToTopLevel_def seenTopLevel_def
  addMediaType_def addProperty_def populateDisplayAttrs_def zeroSchema_def Let_def

lemma example_post_valid: "validState example_post"
  by (simp add: validState_def validStore_def validSchema_def validRef_def postContent_def
      example_post_def)

lemma example_post_extracted:
  "appendPostParamsToTopLevel example_post =
     example_post
       \<lparr>schemas :=
          [\<lparr>Type = ''string'', SchemaDescription = ''the name'', Properties = None,
            Items = None, DisplayAttrs = Some zeroDisplayAttributes\<rparr>,
           \<lparr>Type = ''object'', SchemaDescription = '''',
            Properties = Some [(''ttl'', Some 2), (''name'', Some 3)], Items = None, DisplayAttrs = None\<rparr>,
           \<lparr>Type = ''integer'', SchemaDescription = ''time to live'', Properties = None,
            Items = None, DisplayAttrs = Some zeroDisplayAttributes\<rparr>,
           \<lparr>Type = ''integer'', SchemaDescription = ''a number'', Properties = None,
            Items = None, DisplayAttrs = None\<rparr>],
        pathItem := (pathItem example_post)
          \<lparr>Parameters :=
             [\<lparr>Name = ''name'', Description = ''the name'', In = ''path'', Schema = Some 0\<rparr>,
              \<lparr>Name = ''ttl'', Description = ''time to live'', In = ''post'',
               Schema = Some 2\<rparr>]\<rparr>\<rparr>"
  by (simp add: example_post_def extraction_defs)

text \<open>
  A path item whose body declares only names that its parameters carry, and whose
  parameters' schemas all have display attributes, is left as it is, in whatever order
  the maps of the body are visited.
\<close>

lemma appendPost_fixed_point:
  assumes "\<forall>n\<in>set (bodyPropertyNames t). n \<in> Name ` set (Parameters (pathItem t))"
    "\<forall>p\<in>set (Parameters (pathItem t)). \<forall>r. Schema p = Some r \<longrightarrow>
       DisplayAttrs (schemas t ! r) \<noteq> None"
  shows "appendPostParamsToTopLevel t = t"
proof (cases "postContent (pathItem t)")
  case None
  then show ?thesis by (rule appendPost_absent)
next
  case (Some content)
  let ?ps = "Parameters (pathItem t)"
  let ?u = "\<lambda>n. n \<in> Name ` set ?ps"
  have idle1: "fold populateParam ?ps (schemas t) = schemas t"
    using assms(2) by (rule fold_populateParam_idle)
  have "\<forall>n\<in>set (propertyNames (schemas t) content). ?u n"
    using assms(1) Some by (simp add: bodyPropertyNames_def)
  then have idle2: "fold addMediaType content (schemas t, ?ps, ?u) = (schemas t, ?ps, ?u)"
    by (rule fold_addMediaType_idle)
  show ?thesis
    using idle1 idle2 by (simp add: appendPost_present[OF Some])
qed

text \<open>
  C4. Extraction is idempotent: run on its own result it changes nothing, neither the
  parameter list nor any schema object. The hypothesis says that the pointers of the
  descriptor are addresses of the store.
\<close>

theorem extraction_idempotent:
  assumes "validState s"
  shows "appendPostParamsToTopLevel (appendPostParamsToTopLevel s) = appendPostParamsToTopLevel s"
  using assms by (rule appendPost_twice)

theorem extraction_idempotent_witness:
  "validState example_post
   \<and> appendPostParamsToTopLevel (appendPostParamsToTopLevel example_post) =
       appendPostParamsToTopLevel example_post
   \<and> map Name (Parameters (pathItem (appendPostParamsToTopLevel example_post))) =
       [''name'', ''ttl'']"
  using extraction_idempotent[OF example_post_valid] example_post_valid
  by (simp add: example_post_extracted)


lemma appendPost_added:
  assumes "validState s"
  shows "\<exists>added.
      Parameters (pathItem (appendPostParamsToTopLevel s)) = Parameters (pathItem s) @ added
    \<and> grows (schemas s) (schemas (appendPostParamsToTopLevel s))
    \<and> distinct (map Name added)
    \<and> Name ` set added = set (bodyPropertyNames s) - Name ` set (Parameters (pathItem s))
    \<and> (\<forall>q\<in>set added. In q = ''post'' \<and> populated (schemas (appendPostParamsToTopLevel s)) q)
    \<and> (postContent (pathItem s) \<noteq> None \<longrightarrow>
         (\<forall>p\<in>set (Parameters (pathItem s)).
            Schema p \<noteq> None \<longrightarrow> populated (schemas (appendPostParamsToTopLevel s)) p))"
proof (cases "postContent (pathItem s)")
  case None
  then have "appendPostParamsToTopLevel s = s" by (rule appendPost_absent)
  moreover have "bodyPropertyNames s = []" using None by (simp add: bodyPropertyNames_def)
  ultimately show ?thesis using None by (intro exI[of _ "[]"]) (simp add: grows_refl)
next
  case (Some content)
  obtain h' added where
    run: "appendPostParamsToTopLevel s =
       s\<lparr>schemas := h', pathItem := (pathItem s)\<lparr>Parameters := Parameters (pathItem s) @ added\<rparr>\<rparr>"
    and rest: "grows (schemas s) h'" "validStore h'" "distinct (map Name added)"
    "Name ` set added = set (bodyPropertyNames s) - Name ` set (Parameters (pathItem s))"
    "\<forall>q\<in>set added. In q = ''post'' \<and> populated h' q"
    "\<forall>p\<in>set (Parameters (pathItem s)). Schema p \<noteq> None \<longrightarrow> populated h' p"
    using appendPost_summary[OF assms Some] by (elim exE conjE)
  show ?thesis
    using rest unfolding run by (intro exI[of _ added]) simp
qed



lemma example_post_parameters:
  "Parameters (pathItem example_post) =
      [\<lparr>Name = ''name'', Description = ''the name'', In = ''path'', Schema = Some 0\<rparr>]"
  by (simp add: example_post_def)




text \<open>
  C2, as stated, fails: without a POST operation the extraction returns at once, and a
  parameter without a schema stays without one.
\<close>

theorem extraction_absent_schema_counterexample:
  "\<not> allPopulated (appendPostParamsToTopLevel example_absent)"
  by (simp add: allPopulated_def populated_def example_absent_def extraction_defs)

text \<open>
  With a request body at hand the first loop assigns the fresh schema to its copy of the
  parameter, and the parameter in the list stays without a schema as well.
\<close>

lemma extraction_slip_example:
  "postContent (pathItem example_slip) \<noteq> None
   \<and> map Schema (Parameters (pathItem (appendPostParamsToTopLevel example_slip))) =
       [None, Some 2]"
  by (simp add: example_slip_def example_post_def extraction_defs postContent_def)

text \<open>
  C2, amended. When the endpoint has a POST operation whose request body has content,
  every parameter the extraction appends has a schema with display attributes, and every
  earlier parameter that has a schema has display attributes; without POST operation,
  request body or content the extraction changes nothing.
\<close>

theorem extraction_populates:
  assumes "validState s"
  shows "(postContent (pathItem s) = None \<longrightarrow> appendPostParamsToTopLevel s = s)
    \<and> (postContent (pathItem s) \<noteq> None \<longrightarrow>
        (\<exists>added.
           Parameters (pathItem (appendPostParamsToTopLevel s)) = Parameters (pathItem s) @ added
         \<and> list_all (populated (schemas (appendPostParamsToTopLevel s))) added
         \<and> list_all (\<lambda>p. Schema p = None \<or> populated (schemas (appendPostParamsToTopLevel s)) p)
              (Parameters (pathItem s))))"
proof -
  obtain added where
    r: "Parameters (pathItem (appendPostParamsToTopLevel s)) = Parameters (pathItem s) @ added"
    "\<forall>q\<in>set added. In q = ''post'' \<and> populated (schemas (appendPostParamsToTopLevel s)) q"
    "postContent (pathItem s) \<noteq> None \<longrightarrow>
         (\<forall>p\<in>set (Parameters (pathItem s)).
            Schema p \<noteq> None \<longrightarrow> populated (schemas (appendPostParamsToTopLevel s)) p)"
    using appendPost_added[OF assms] by (elim exE conjE)
  have 1: "list_all (populated (schemas (appendPostParamsToTopLevel s))) added"
    using r(2) by (simp add: list_all_iff)
  have 2: "list_all (\<lambda>p. Schema p = None \<or> populated (schemas (appendPostParamsToTopLevel s)) p)
              (Parameters (pathItem s))"
    if "postContent (pathItem s) \<noteq> None"
    using r(3) that by (auto simp: list_all_iff)
  show ?thesis
    using r(1) 1 2 appendPost_absent[of s] by blast
qed

theorem extraction_populates_witness:
  "validState example_post \<and> postContent (pathItem example_post) \<noteq> None
   \<and> allPopulated (appendPostParamsToTopLevel example_post)"
proof -
  have c: "postContent (pathItem example_post) \<noteq> None"
    by (simp add: postContent_def example_post_def)
  obtain added where
    a: "Parameters (pathItem (appendPostParamsToTopLevel example_post)) =
        Parameters (pathItem example_post) @ added"
    and n: "list_all (populated (schemas (appendPostParamsToTopLevel example_post))) added"
    and o: "list_all (\<lambda>p. Schema p = None \<or> populated (schemas (appendPostParamsToTopLevel example_post)) p)
              (Parameters (pathItem example_post))"
    using extraction_populates[OF example_post_valid] c by blast
  have "list_all (populated (schemas (appendPostParamsToTopLevel example_post)))
      (Parameters (pathItem example_post))"
    using o by (simp add: example_post_parameters)
  then have "allPopulated (appendPostParamsToTopLevel example_post)"
    unfolding allPopulated_def a using n by simp
  then show ?thesis using example_post_valid c by simp
qed

section \<open>Validation\<close>

lemma supported_tags: "StrListContains supportedParamTypes t \<longleftrightarrow> t \<in> supportedTags"
  by (auto simp: StrListContains_def supportedParamTypes_def supportedTags_def)

lemma validateParams_None:
  "validateParams path h ps = None \<longleftrightarrow>
     (\<forall>p\<in>set ps. Schema p \<noteq> None \<and> \<not> unsupportedParam h p)"
  by (induction ps)
    (auto simp: unsupportedParam_def typeTag_def supported_tags split: option.splits)

lemma validateParams_unsupported:
  "(\<exists>msgs. validateParams path h ps = Some (ErrUnsupported, msgs)) \<longleftrightarrow>
     list_ex (unsupportedParam h) (beforeAbsentSchema ps)"
  by (induction ps)
    (auto simp: unsupportedParam_def typeTag_def supported_tags beforeAbsentSchema_def
      split: option.splits)



lemma toTemplateFriendly_result:
  "fst (toTemplateFriendly u path parentDir s) = Inl err \<longleftrightarrow>
     (\<exists>msgs. validateParams path (schemas (appendPostParamsToTopLevel s))
                (Parameters (pathItem (appendPostParamsToTopLevel s))) = Some (err, msgs))"
  by (auto simp: toTemplateFriendly_def Let_def split: option.splits prod.splits)


lemma example_absent_extracted: "appendPostParamsToTopLevel example_absent = example_absent"
  by (rule appendPost_absent) (simp add: postContent_def example_absent_def)

lemma example_unsupported_extracted:
  "Parameters (pathItem (appendPostParamsToTopLevel example_unsupported)) =
     [\<lparr>Name = ''name'', Description = ''the name'', In = ''path'', Schema = Some 0\<rparr>,
      \<lparr>Name = ''config'', Description = ''settings'', In = ''post'', Schema = Some 2\<rparr>]"
  "schemas (appendPostParamsToTopLevel example_unsupported) =
     [\<lparr>Type = ''string'', SchemaDescription = ''the name'', Properties = None,
       Items = None, DisplayAttrs = Some zeroDisplayAttributes\<rparr>,
      \<lparr>Type = ''object'', SchemaDescription = [],
       Properties = Some [(''config'', Some 2)], Items = None, DisplayAttrs = None\<rparr>,
      \<lparr>Type = ''object'', SchemaDescription = ''settings'', Properties = None,
       Items = None, DisplayAttrs = Some zeroDisplayAttributes\<rparr>]"
  by (simp_all add: example_unsupported_def extraction_defs)

lemma example_unsupported_offending:
  "list_ex (unsupportedParam (schemas (appendPostParamsToTopLevel example_unsupported)))
     (beforeAbsentSchema (Parameters (pathItem (appendPostParamsToTopLevel example_unsupported))))"
  unfolding example_unsupported_extracted
  by (simp add: beforeAbsentSchema_def unsupportedParam_def typeTag_def supportedTags_def)

lemma appendPost_disk:
  "appendPostParamsToTopLevel (s\<lparr>dirs := d, files := f\<rparr>) =
     (appendPostParamsToTopLevel s)\<lparr>dirs := d, files := f\<rparr>"
  by (simp add: appendPostParamsToTopLevel_def Let_def split: option.splits prod.splits)

lemma toTemplateFriendly_disk:
  "toTemplateFriendly u path parentDir (s\<lparr>dirs := d, files := f\<rparr>) =
     (fst (toTemplateFriendly u path parentDir s),
      (snd (toTemplateFriendly u path parentDir s))\<lparr>dirs := d, files := f\<rparr>)"
  by (simp add: toTemplateFriendly_def Let_def appendPost_disk split: option.splits prod.splits)

lemma generateFile_unsupported:
  assumes "opens e pathToFile" "Parse e fileType = None"
    "list_ex (unsupportedParam (schemas (appendPostParamsToTopLevel s)))
       (beforeAbsentSchema (Parameters (pathItem (appendPostParamsToTopLevel s))))"
  shows "fst (generateFile e pathToFile fileType vaultPath s) = Inl ErrUnsupported"
    and "files (snd (generateFile e pathToFile fileType vaultPath s)) = (files s)(pathToFile \<mapsto> [])"
    and "dirs (snd (generateFile e pathToFile fileType vaultPath s)) =
       insert (take (nat (strings_LastIndex pathToFile CHR ''/'')) pathToFile) (dirs s)"
proof -
  let ?d = "take (nat (strings_LastIndex pathToFile CHR ''/'')) pathToFile"
  let ?t = "toTemplateFriendly (Unicode e) vaultPath ?d s"
  let ?s1 = "(snd ?t)\<lparr>dirs := insert ?d (dirs s), files := (files s)(pathToFile \<mapsto> [])\<rparr>"
  have "\<exists>msgs. validateParams vaultPath (schemas (appendPostParamsToTopLevel s))
      (Parameters (pathItem (appendPostParamsToTopLevel s))) = Some (ErrUnsupported, msgs)"
    using assms(3) by (simp add: validateParams_unsupported)
  then have err: "fst ?t = Inl ErrUnsupported"
    by (simp add: toTemplateFriendly_result)
  have "toTemplateFriendly (Unicode e) vaultPath ?d (created pathToFile s) = (Inl ErrUnsupported, ?s1)"
    unfolding created_def toTemplateFriendly_disk err by simp
  then have p: "parseTemplate e fileType ?d vaultPath (created pathToFile s) =
      (Inl ErrUnsupported, [], ?s1)"
    using assms(2) by (simp add: parseTemplate_def)
  have g: "generateFile e pathToFile fileType vaultPath s =
      (Inl ErrUnsupported, deferredClose e ?s1)"
    by (simp add: generateFile_opened[OF assms(1)] p deferredFlush_def)
  show "fst (generateFile e pathToFile fileType vaultPath s) = Inl ErrUnsupported"
    by (simp add: g)
  show "files (snd (generateFile e pathToFile fileType vaultPath s)) = (files s)(pathToFile \<mapsto> [])"
    by (simp add: g deferredClose_def split: option.splits)
  show "dirs (snd (generateFile e pathToFile fileType vaultPath s)) = insert ?d (dirs s)"
    by (simp add: g deferredClose_def split: option.splits)
qed

text \<open>
  C1, amended. When directory creation, file creation and template parsing succeed and
  the parameter list after extraction has an unsupported parameter before any parameter
  without a schema, \<open>generateFile\<close> returns the unsupported sentinel; by then it has
  created the parent directory and created or truncated the output file, which is left
  empty.
\<close>

theorem unsupported_leaves_empty_file:
  assumes "opens e pathToFile" "Parse e fileType = None"
    "list_ex (unsupportedParam (schemas (appendPostParamsToTopLevel s)))
       (beforeAbsentSchema (Parameters (pathItem (appendPostParamsToTopLevel s))))"
  shows "fst (generateFile e pathToFile fileType vaultPath s) = Inl ErrUnsupported
    \<and> files (snd (generateFile e pathToFile fileType vaultPath s)) = (files s)(pathToFile \<mapsto> [])
    \<and> dirs (snd (generateFile e pathToFile fileType vaultPath s)) =
       insert (take (nat (strings_LastIndex pathToFile CHR ''/'')) pathToFile) (dirs s)"
  using generateFile_unsupported[OF assms] by simp

lemma example_code_path:
  "codePathToFile example_env FileTypeResource ''/transform/{name}'' =
     ''/repo/generated/resource/transform/name.go''"
  by (simp add: codePathToFile_def example_env_def stripCurlyBraces_def strings_Replace_def)

lemma example_opens: "opens example_env ''/repo/generated/resource/transform/name.go''"
  by (simp add: opens_def example_env_def strings_LastIndex_def)

lemma example_parses: "Parse example_env FileTypeResource = None"
  by (simp add: example_env_def)

text \<open>
  C1, as stated, fails: \<open>GenerateFiles\<close> on the endpoint with the \<open>object\<close> property
  returns the sentinel and leaves a file where there was none.
\<close>

theorem unsupported_touches_file_counterexample:
  "fst (GenerateFiles example_env FileTypeResource ''/transform/{name}'' example_unsupported) =
     Inl ErrUnsupported
   \<and> files example_unsupported ''/repo/generated/resource/transform/name.go'' = None
   \<and> files (snd (GenerateFiles example_env FileTypeResource ''/transform/{name}''
        example_unsupported)) ''/repo/generated/resource/transform/name.go'' = Some []"
proof -
  note g = generateFile_unsupported[OF example_opens example_parses example_unsupported_offending,
      of "''/transform/{name}''"]
  obtain r s1 where run: "generateFile example_env ''/repo/generated/resource/transform/name.go''
      FileTypeResource ''/transform/{name}'' example_unsupported = (r, s1)"
    by (cases "generateFile example_env ''/repo/generated/resource/transform/name.go''
      FileTypeResource ''/transform/{name}'' example_unsupported")
  have r: "r = Inl ErrUnsupported" using g(1) run by simp
  have f: "files s1 = (files example_unsupported)(''/repo/generated/resource/transform/name.go'' \<mapsto> [])"
    using g(2) run by simp
  have "GenerateFiles example_env FileTypeResource ''/transform/{name}'' example_unsupported =
      (Inl ErrUnsupported, s1)"
    by (simp add: GenerateFiles_def generateCode_def example_code_path run r)
  moreover have "files example_unsupported ''/repo/generated/resource/transform/name.go'' = None"
    by (simp add: example_unsupported_def)
  ultimately show ?thesis using f by simp
qed

theorem unsupported_leaves_empty_file_witness:
  "opens example_env ''/repo/generated/resource/transform/name.go''
   \<and> Parse example_env FileTypeResource = None
   \<and> fst (generateFile example_env ''/repo/generated/resource/transform/name.go''
        FileTypeResource ''/transform/{name}'' example_unsupported) = Inl ErrUnsupported
   \<and> files (snd (generateFile example_env ''/repo/generated/resource/transform/name.go''
        FileTypeResource ''/transform/{name}'' example_unsupported))
        ''/repo/generated/resource/transform/name.go'' = Some []
   \<and> dirs (snd (generateFile example_env ''/repo/generated/resource/transform/name.go''
        FileTypeResource ''/transform/{name}'' example_unsupported)) =
       {''/repo/generated/resource/transform''}"
proof -
  have d: "take (nat (strings_LastIndex ''/repo/generated/resource/transform/name.go'' CHR ''/''))
      ''/repo/generated/resource/transform/name.go'' = ''/repo/generated/resource/transform''"
    by (simp add: strings_LastIndex_def)
  have e: "dirs example_unsupported = {}" by (simp add: example_unsupported_def)
  show ?thesis
    using unsupported_leaves_empty_file[OF example_opens example_parses
        example_unsupported_offending, of "''/transform/{name}''"]
      example_opens example_parses
    by (simp add: d e)
qed






















section \<open>The order of the parameters\<close>

lemma mset_sort_Slice: "mset (sort_Slice ps) = mset ps"
  by (simp add: sort_Slice_def)

lemma sorted_sort_Slice: "sorted (map Name (sort_Slice ps))"
  by (simp add: sort_Slice_def)

lemma filter_distinct_key:
  "distinct (map f xs) \<Longrightarrow> k \<in> set xs \<Longrightarrow> filter (\<lambda>x. f k = f x) xs = [k]"
proof (induction xs)
  case Nil
  then show ?case by simp
next
  case (Cons x xs)
  show ?case
  proof (cases "k = x")
    case True
    have "filter (\<lambda>y. f x = f y) xs = []"
      using Cons.prems(1) by (auto simp: filter_empty_conv)
    then show ?thesis using True by simp
  next
    case False
    then have "k \<in> set xs" using Cons.prems(2) by simp
    moreover have "f k \<noteq> f x" using Cons.prems(1) calculation by (metis distinct.simps(2) image_eqI list.simps(9) set_map)
    ultimately show ?thesis using Cons by simp
  qed
qed

lemma sort_Slice_unique:
  assumes "distinct (map Name xs)" "mset ys = mset xs" "sorted (map Name ys)"
  shows "ys = sort_Slice xs"
proof -
  have "mset (map Name ys) = mset (map Name xs)" using assms(2) by simp
  then have dy: "distinct (map Name ys)" using assms(1) by (metis mset_eq_imp_distinct_iff)
  have "filter (\<lambda>x. Name k = Name x) ys = filter (\<lambda>x. Name k = Name x) xs" if "k \<in> set ys" for k
  proof -
    have "k \<in> set xs" using that assms(2) by (metis mset_eq_setD)
    then show ?thesis
      using filter_distinct_key[OF dy that] filter_distinct_key[OF assms(1)] by simp
  qed
  then have "sort_key Name xs = ys"
    using assms(2) assms(3) by (intro properties_for_sort_key) auto
  then show ?thesis by (simp add: sort_Slice_def)
qed

lemma sort_Slice_permuted:
  assumes "distinct (map Name xs)" "mset ys = mset xs"
  shows "sort_Slice ys = sort_Slice xs"
  using sort_Slice_unique[OF assms(1), of "sort_Slice ys"] assms(2)
  by (simp add: mset_sort_Slice sorted_sort_Slice)

lemma appendPost_permuted:
  assumes "mset ps' = mset (Parameters (pathItem s))"
  shows "\<exists>h added.
      appendPostParamsToTopLevel s =
        s\<lparr>schemas := h, pathItem := (pathItem s)\<lparr>Parameters := Parameters (pathItem s) @ added\<rparr>\<rparr>
    \<and> appendPostParamsToTopLevel (s\<lparr>pathItem := (pathItem s)\<lparr>Parameters := ps'\<rparr>\<rparr>) =
        s\<lparr>schemas := h, pathItem := (pathItem s)\<lparr>Parameters := ps' @ added\<rparr>\<rparr>"
proof (cases "postContent (pathItem s)")
  case None
  let ?s' = "s\<lparr>pathItem := (pathItem s)\<lparr>Parameters := ps'\<rparr>\<rparr>"
  have "postContent (pathItem ?s') = None" using None by (simp add: postContent_def)
  then have "appendPostParamsToTopLevel ?s' = ?s'" by (rule appendPost_absent)
  moreover have "appendPostParamsToTopLevel s = s" using None by (rule appendPost_absent)
  ultimately show ?thesis
    by (intro exI[of _ "schemas s"] exI[of _ "[]"]) simp
next
  case (Some content)
  let ?ps = "Parameters (pathItem s)"
  let ?s' = "s\<lparr>pathItem := (pathItem s)\<lparr>Parameters := ps'\<rparr>\<rparr>"
  let ?h1 = "fold populateParam ?ps (schemas s)"
  let ?u = "\<lambda>n. n \<in> Name ` set ?ps"
  have c': "postContent (pathItem ?s') = Some content" using Some by (simp add: postContent_def)
  have h': "fold populateParam ps' (schemas s) = ?h1"
    using assms by (rule fold_populateParam_mset)
  have "set ps' = set ?ps" using assms by (rule mset_eq_setD)
  then have u': "(\<lambda>n. n \<in> Name ` set ps') = ?u" by simp
  obtain h added u2 where r: "fold addMediaType content (?h1, [], ?u) = (h, added, u2)"
    by (cases "fold addMediaType content (?h1, [], ?u)")
  have p: "fold addMediaType content (?h1, qs, ?u) = (h, qs @ added, u2)" for qs
    using fold_addMediaType_prefix[of content ?h1 qs "[]" ?u] by (simp add: r)
  have 1: "appendPostParamsToTopLevel s =
        s\<lparr>schemas := h, pathItem := (pathItem s)\<lparr>Parameters := ?ps @ added\<rparr>\<rparr>"
    by (simp add: appendPost_present[OF Some] p)
  have 2: "appendPostParamsToTopLevel ?s' =
        s\<lparr>schemas := h, pathItem := (pathItem s)\<lparr>Parameters := ps' @ added\<rparr>\<rparr>"
    by (simp add: appendPost_present[OF c'] h' u' p)
  show ?thesis using 1 2 by (intro exI[of _ h] exI[of _ added] conjI)
qed

lemma toTemplateFriendly_context:
  "fst (toTemplateFriendly u path parentDir s) = Inr tf \<longleftrightarrow>
     validateParams path (schemas (appendPostParamsToTopLevel s))
       (Parameters (pathItem (appendPostParamsToTopLevel s))) = None
     \<and> tf = contextOf u path parentDir (pathItem (appendPostParamsToTopLevel s))"
  by (auto simp: toTemplateFriendly_def Let_def contextOf_def split: option.splits prod.splits)

text \<open>
  C6. Hand \<open>toTemplateFriendly\<close> the same endpoint with its parameter list in any other
  order: it returns the same context, whose parameters are sorted by name, ascending in
  the bytewise order of Go strings. The names of the list are distinct, as names that
  are the keys of a map are, and the pointers of the descriptor are addresses of the
  store.
\<close>

theorem parameter_order_deterministic:
  assumes "validState s" "distinct (map Name (Parameters (pathItem s)))"
    "mset params' = mset (Parameters (pathItem s))"
    "fst (toTemplateFriendly u path parentDir s) = Inr tf"
  shows "fst (toTemplateFriendly u path parentDir
            (s\<lparr>pathItem := (pathItem s)\<lparr>Parameters := params'\<rparr>\<rparr>)) = Inr tf
    \<and> sorted (map Name (TemplateParameters tf))
    \<and> distinct (map Name (TemplateParameters tf))
    \<and> mset (TemplateParameters tf) = mset (Parameters (pathItem (appendPostParamsToTopLevel s)))"
proof -
  let ?ps = "Parameters (pathItem s)"
  let ?s' = "s\<lparr>pathItem := (pathItem s)\<lparr>Parameters := params'\<rparr>\<rparr>"
  obtain h added where
    1: "appendPostParamsToTopLevel s =
        s\<lparr>schemas := h, pathItem := (pathItem s)\<lparr>Parameters := ?ps @ added\<rparr>\<rparr>"
    and 2: "appendPostParamsToTopLevel ?s' =
        s\<lparr>schemas := h, pathItem := (pathItem s)\<lparr>Parameters := params' @ added\<rparr>\<rparr>"
    using appendPost_permuted[OF assms(3)] by (elim exE conjE)
  obtain added0 where
    a: "Parameters (pathItem (appendPostParamsToTopLevel s)) = ?ps @ added0"
    "distinct (map Name added0)"
    "Name ` set added0 = set (bodyPropertyNames s) - Name ` set ?ps"
    using appendPost_added[OF assms(1)] by (elim exE conjE)
  have "added0 = added" using a(1) by (simp add: 1)
  then have d: "distinct (map Name (?ps @ added))"
    using a(2) a(3) assms(2) by auto
  have m: "mset (params' @ added) = mset (?ps @ added)" using assms(3) by simp
  then have st: "set (params' @ added) = set (?ps @ added)" by (rule mset_eq_setD)
  have v: "validateParams path h (?ps @ added) = None"
    and tf: "tf = contextOf u path parentDir ((pathItem s)\<lparr>Parameters := ?ps @ added\<rparr>)"
    using assms(4) unfolding toTemplateFriendly_context by (simp_all add: 1)
  have v': "validateParams path h (params' @ added) = None"
    using v unfolding validateParams_None st .
  have "sort_Slice (params' @ added) = sort_Slice (?ps @ added)"
    using d m by (rule sort_Slice_permuted)
  then have "contextOf u path parentDir ((pathItem s)\<lparr>Parameters := params' @ added\<rparr>) = tf"
    by (simp add: tf contextOf_def)
  then have r1: "fst (toTemplateFriendly u path parentDir ?s') = Inr tf"
    using v' unfolding toTemplateFriendly_context by (simp add: 2)
  have tp: "TemplateParameters tf = sort_Slice (?ps @ added)" by (simp add: tf contextOf_def)
  have r2: "sorted (map Name (TemplateParameters tf))" by (simp add: tp sorted_sort_Slice)
  have r4: "mset (TemplateParameters tf) = mset (Parameters (pathItem (appendPostParamsToTopLevel s)))"
    by (simp add: tp mset_sort_Slice 1)
  have "mset (map Name (TemplateParameters tf)) = mset (map Name (?ps @ added))"
    by (simp add: tp mset_sort_Slice)
  then have r3: "distinct (map Name (TemplateParameters tf))"
    using d by (metis mset_eq_imp_distinct_iff)
  show ?thesis using r1 r2 r3 r4 by simp
qed

lemma example_two_valid: "validState example_two"
  by (simp add: validState_def validStore_def validSchema_def validRef_def postContent_def
      example_two_def)

lemma example_two_run:
  "fst (toTemplateFriendly example_unicode ''/auth/{role}/{name}'' ''/repo/generated/resource/auth/role''
     example_two) =
   Inr \<lparr>Endpoint = ''/auth/{role}/{name}'', DirName = ''role'', ExportedFuncPrefix = ''Name'',
        PrivateFuncPrefix = ''name'',
        TemplateParameters =
          [\<lparr>Name = ''name'', Description = ''the name'', In = ''path'', Schema = Some 1\<rparr>,
           \<lparr>Name = ''role'', Description = ''the role'', In = ''path'', Schema = Some 0\<rparr>],
        SupportsRead = True, SupportsWrite = False, SupportsDelete = False\<rparr>"
  by code_simp

theorem parameter_order_deterministic_witness:
  "validState example_two
   \<and> map Name (Parameters (pathItem example_two)) = [''role'', ''name'']
   \<and> (\<exists>tf. fst (toTemplateFriendly example_unicode ''/auth/{role}/{name}'' ''/repo/generated/resource/auth/role''
              example_two) = Inr tf
         \<and> fst (toTemplateFriendly example_unicode ''/auth/{role}/{name}'' ''/repo/generated/resource/auth/role''
              (example_two\<lparr>pathItem := (pathItem example_two)
                 \<lparr>Parameters := rev (Parameters (pathItem example_two))\<rparr>\<rparr>)) = Inr tf
         \<and> map Name (TemplateParameters tf) = [''name'', ''role''])"
proof -
  have n: "map Name (Parameters (pathItem example_two)) = [''role'', ''name'']"
    by (simp add: example_two_def)
  then have d: "distinct (map Name (Parameters (pathItem example_two)))" by simp
  have m: "mset (rev (Parameters (pathItem example_two))) = mset (Parameters (pathItem example_two))"
    by simp
  note t = parameter_order_deterministic[OF example_two_valid d m example_two_run]
  show ?thesis
    using t example_two_valid n example_two_run by simp
qed

end
